theory Spec2Isabelle
  imports Complex_Main
begin

section \<open>Python values, exceptions and the library calls of update\_humidity.py\<close>

text \<open>
  The humidity script works on decoded JSON and on numpy arrays of float64. Floats are
  modelled as real numbers, and NaN (numpy's "no data") as \<open>None\<close> in a
  \<open>real option\<close>; a 2-D array is the list of its rows. An exception is the left summand
  of a sum type.
\<close>

datatype pyexn = KeyError | IndexError | TypeError | ValueError | QhullError

datatype json =
    JNull
  | JBool bool
  | JNum real
  | JStr string
  | JArr "json list"
  | JObj "(string \<times> json) list"

text \<open>A station is one decoded JSON object; \<open>s.get(k)\<close> is the lookup \<open>s k\<close>.\<close>

type_synonym station = "string \<rightharpoonup> json"

type_synonym grid = "real option list list"

type_synonym mask = "bool list list"

record geo_info =
  bottom_left_lon :: real
  bottom_left_lat :: real
  top_right_lon :: real
  top_right_lat :: real
  resolution_deg :: real
  resolution_km :: real
  grid_rows :: int
  grid_cols :: int

definition GEO_INFO :: geo_info where
  "GEO_INFO = \<lparr> bottom_left_lon = 120, bottom_left_lat = 2188 / 100,
      top_right_lon = 12198 / 100, top_right_lat = 2545 / 100,
      resolution_deg = 3 / 100, resolution_km = 33 / 10,
      grid_rows = 120, grid_cols = 67 \<rparr>"

text \<open>
  The statistics dictionary: either the one-key error dictionary of the early return or
  the five statistics. The fields \<open>min\<close> and \<open>max\<close> carry a prefix because the bare
  names are HOL constants.
\<close>

record frame_stats =
  stat_min :: "real option"
  stat_max :: "real option"
  stat_avg :: "real option"
  valid_points :: nat
  station_count :: nat

datatype stats_dict = ErrorDict string | StatsDict frame_stats

subsection \<open>The Python builtins \<open>float\<close> and \<open>round\<close>\<close>

text \<open>
  \<open>float(v)\<close> on a decoded JSON value. Parsing a string is Python's own; it is the
  parameter \<open>sf\<close>, with \<open>None\<close> for the strings on which \<open>float\<close> raises ValueError.
\<close>

fun py_float :: "(string \<Rightarrow> real option) \<Rightarrow> json \<Rightarrow> pyexn + real" where
  "py_float sf (JNum x) = Inr x"
| "py_float sf (JBool b) = Inr (if b then 1 else 0)"
| "py_float sf (JStr s) = (case sf s of None \<Rightarrow> Inl ValueError | Some x \<Rightarrow> Inr x)"
| "py_float sf JNull = Inl TypeError"
| "py_float sf (JArr xs) = Inl TypeError"
| "py_float sf (JObj kvs) = Inl TypeError"

text \<open>\<open>round(x, 1)\<close>: to the nearest tenth, a tie going to the even neighbour.\<close>

definition round_half_even :: "real \<Rightarrow> int" where
  "round_half_even x =
     (let f = \<lfloor>x\<rfloor>; d = x - of_int f
      in if d < 1 / 2 then f
         else if 1 / 2 < d then f + 1
         else if even f then f else f + 1)"

definition py_round1 :: "real \<Rightarrow> real" where
  "py_round1 x = of_int (round_half_even (x * 10)) / 10"

text \<open>A list comprehension whose element expression may raise: the first raise wins.\<close>

fun collect :: "('e + 'a) list \<Rightarrow> 'e + 'a list" where
  "collect [] = Inr []"
| "collect (Inl e # rs) = Inl e"
| "collect (Inr x # rs) = (case collect rs of Inl e \<Rightarrow> Inl e | Inr xs \<Rightarrow> Inr (x # xs))"

subsection \<open>numpy: linspace, meshgrid, clip, boolean-mask assignment\<close>

text \<open>
  \<open>np.linspace(start, stop, num)\<close> with the default \<open>endpoint=True\<close>: a negative
  \<open>num\<close> raises ValueError; otherwise sample \<open>i\<close> is \<open>start + i * step\<close> with
  \<open>step = (stop - start) / (num - 1)\<close>, and for \<open>num > 1\<close> the last sample is
  overwritten with \<open>stop\<close>.
\<close>

definition linspace :: "real \<Rightarrow> real \<Rightarrow> int \<Rightarrow> pyexn + real list" where
  "linspace start stop num =
     (if num < 0 then Inl ValueError
      else let n = nat num;
               step = (stop - start) / real (n - 1);
               y = map (\<lambda>i. start + real i * step) [0..<n]
           in Inr (if 1 < n then y[n - 1 := stop] else y))"

text \<open>\<open>np.meshgrid(lon, lat)\<close>: cell \<open>(r, c)\<close> holds \<open>lon[c]\<close>, respectively \<open>lat[r]\<close>.\<close>

definition meshgrid :: "real list \<Rightarrow> real list \<Rightarrow> real list list \<times> real list list" where
  "meshgrid lon lat =
     (map (\<lambda>y. lon) lat, map (\<lambda>y. map (\<lambda>x. y) lon) lat)"

text \<open>\<open>np.clip(a, lo, hi)\<close>: NaN stays NaN.\<close>

definition clip :: "grid \<Rightarrow> real \<Rightarrow> real \<Rightarrow> grid" where
  "clip a lo hi = map (map (map_option (\<lambda>v. min (max v lo) hi))) a"

text \<open>
  \<open>a[~m] = np.nan\<close>. An array built from lists without any element has dtype
  float64, on which \<open>~\<close> raises TypeError; a boolean index whose shape differs from the
  array's raises IndexError. Row by row, the lengths of the two arrays are compared.
\<close>

definition assign_nan_where_not :: "grid \<Rightarrow> mask \<Rightarrow> pyexn + grid" where
  "assign_nan_where_not a m =
     (if concat m = [] then Inl TypeError
      else if map length m \<noteq> map length a then Inl IndexError
      else Inr (map2 (map2 (\<lambda>v keep. if keep then v else None)) a m))"

subsection \<open>scipy: griddata\<close>

text \<open>
  \<open>griddata(points, values, xi, method)\<close> builds an interpolant from the scattered
  points (the triangulation may raise) and evaluates it at every point of \<open>xi\<close>, giving
  NaN outside the convex hull. The interpolant is scipy's; it is the parameter \<open>G\<close>.
\<close>

datatype interp_method = Cubic | Linear

type_synonym interpolant =
  "interp_method \<Rightarrow> (real \<times> real) list \<Rightarrow> real list \<Rightarrow> pyexn + (real \<times> real \<Rightarrow> real option)"

definition griddata ::
  "interpolant \<Rightarrow> (real \<times> real) list \<Rightarrow> real list \<Rightarrow> real list list \<times> real list list
     \<Rightarrow> interp_method \<Rightarrow> pyexn + grid" where
  "griddata G points vals xi method =
     (case G method points vals of
        Inl e \<Rightarrow> Inl e
      | Inr f \<Rightarrow> Inr (map2 (map2 (\<lambda>x y. f (x, y))) (fst xi) (snd xi)))"

text \<open>
  Both methods of \<open>griddata\<close> start by triangulating the scattered points (a Delaunay
  triangulation computed by Qhull), and Qhull raises QhullError when all the points lie
  on one line. \<open>qhull_griddata F\<close> is an interpolant with that behaviour; on points
  that are not collinear it is \<open>F\<close>.
\<close>

definition collinear :: "(real \<times> real) list \<Rightarrow> bool" where
  "collinear ps \<longleftrightarrow>
     (\<forall>p \<in> set ps. \<forall>q \<in> set ps. \<forall>r \<in> set ps.
        (fst q - fst p) * (snd r - snd p) = (snd q - snd p) * (fst r - fst p))"

definition qhull_griddata :: "interpolant \<Rightarrow> interpolant" where
  "qhull_griddata F method points vals =
     (if collinear points then Inl QhullError else F method points vals)"

section \<open>The land mask\<close>

text \<open>
  What \<open>load_land_mask\<close> finds at \<open>TEMPERATURE_FILE\<close>: no file, a file that cannot be
  opened or decoded, or the decoded JSON (whose objects have distinct keys).
\<close>

datatype temp_file = Missing | Undecodable | Decoded json

text \<open>\<open>v[k]\<close> for a string key and \<open>v[0]\<close>, on a decoded JSON value.\<close>

fun getitem_str :: "json \<Rightarrow> string \<Rightarrow> pyexn + json" where
  "getitem_str (JObj kvs) k = (case map_of kvs k of None \<Rightarrow> Inl KeyError | Some v \<Rightarrow> Inr v)"
| "getitem_str v k = Inl TypeError"

fun getitem_0 :: "json \<Rightarrow> pyexn + json" where
  "getitem_0 (JArr xs) = (case xs of [] \<Rightarrow> Inl IndexError | x # _ \<Rightarrow> Inr x)"
| "getitem_0 (JStr s) = (case s of [] \<Rightarrow> Inl IndexError | c # _ \<Rightarrow> Inr (JStr [c]))"
| "getitem_0 (JObj kvs) = Inl KeyError"
| "getitem_0 v = Inl TypeError"

text \<open>\<open>for x in v\<close>: a list yields its items, an object its keys, a string its characters.\<close>

fun py_iter :: "json \<Rightarrow> pyexn + json list" where
  "py_iter (JArr xs) = Inr xs"
| "py_iter (JObj kvs) = Inr (map (\<lambda>kv. JStr (fst kv)) kvs)"
| "py_iter (JStr s) = Inr (map (\<lambda>c. JStr [c]) s)"
| "py_iter v = Inl TypeError"

text \<open>\<open>val is not None and val > -900\<close>\<close>

fun usable :: "json \<Rightarrow> pyexn + bool" where
  "usable JNull = Inr False"
| "usable (JNum x) = Inr (- 900 < x)"
| "usable (JBool b) = Inr True"
| "usable v = Inl TypeError"

text \<open>
  \<open>np.array\<close> of a list of lists of booleans: rows of unequal length raise ValueError
  (numpy 1.24 and later; earlier versions warn and build an array of objects).
\<close>

definition np_array :: "bool list list \<Rightarrow> pyexn + mask" where
  "np_array rows =
     (if \<forall>r \<in> set rows. length r = length (hd rows) then Inr rows else Inl ValueError)"

definition first_frame_data :: "json \<Rightarrow> pyexn + json" where
  "first_frame_data temp_data =
     (case getitem_str temp_data ''frames'' of
        Inl e \<Rightarrow> Inl e
      | Inr frames \<Rightarrow>
          (case getitem_0 frames of
             Inl e \<Rightarrow> Inl e
           | Inr frame \<Rightarrow> getitem_str frame ''data''))"

definition mask_row :: "json \<Rightarrow> pyexn + bool list" where
  "mask_row row =
     (case py_iter row of Inl e \<Rightarrow> Inl e | Inr vals \<Rightarrow> collect (map usable vals))"

definition build_mask :: "json \<Rightarrow> pyexn + mask" where
  "build_mask temp_data =
     (case first_frame_data temp_data of
        Inl e \<Rightarrow> Inl e
      | Inr first_frame \<Rightarrow>
          (case py_iter first_frame of
             Inl e \<Rightarrow> Inl e
           | Inr rows \<Rightarrow>
               (case collect (map mask_row rows) of
                  Inl e \<Rightarrow> Inl e
                | Inr bs \<Rightarrow> np_array bs)))"

definition load_land_mask :: "temp_file \<Rightarrow> mask option" where
  "load_land_mask file =
     (case file of
        Missing \<Rightarrow> None
      | Undecodable \<Rightarrow> None
      | Decoded temp_data \<Rightarrow>
          (case build_mask temp_data of Inl e \<Rightarrow> None | Inr m \<Rightarrow> Some m))"

text \<open>
  \<open>get_land_mask\<close> reads and writes the global \<open>LAND_MASK\<close>: the model takes its
  value and returns the mask together with the new value of the global.
\<close>

definition get_land_mask :: "temp_file \<Rightarrow> mask option \<Rightarrow> mask option \<times> mask option" where
  "get_land_mask file LAND_MASK =
     (let LAND_MASK' = (if LAND_MASK = None then load_land_mask file else LAND_MASK)
      in (LAND_MASK', LAND_MASK'))"

text \<open>
  A run of calls of \<open>get_land_mask\<close>, one for each state of the reference file at the
  time of the call, as the frame loop makes them: the masks returned, in order.
\<close>

fun get_land_mask_seq :: "temp_file list \<Rightarrow> mask option \<Rightarrow> mask option list" where
  "get_land_mask_seq [] LAND_MASK = []"
| "get_land_mask_seq (file # files) LAND_MASK =
     (case get_land_mask file LAND_MASK of
        (m, LAND_MASK') \<Rightarrow> m # get_land_mask_seq files LAND_MASK')"

section \<open>interpolate\_humidity\<close>

definition present :: "station \<Rightarrow> string \<Rightarrow> bool" where
  "present s k = (case s k of None \<Rightarrow> False | Some JNull \<Rightarrow> False | Some v \<Rightarrow> True)"

definition valid_station :: "station \<Rightarrow> bool" where
  "valid_station s \<longleftrightarrow>
     present s ''humidity'' \<and> present s ''latitude'' \<and> present s ''longitude''"

text \<open>\<open>float(s[k])\<close>\<close>

definition field :: "(string \<Rightarrow> real option) \<Rightarrow> station \<Rightarrow> string \<Rightarrow> pyexn + real" where
  "field sf s k = (case s k of None \<Rightarrow> Inl KeyError | Some v \<Rightarrow> py_float sf v)"

definition point_of :: "(string \<Rightarrow> real option) \<Rightarrow> station \<Rightarrow> pyexn + real \<times> real" where
  "point_of sf s =
     (case field sf s ''longitude'' of
        Inl e \<Rightarrow> Inl e
      | Inr x \<Rightarrow> (case field sf s ''latitude'' of Inl e \<Rightarrow> Inl e | Inr y \<Rightarrow> Inr (x, y)))"

text \<open>The target grid: the longitude and latitude samples, then the mesh.\<close>

definition target_samples :: "geo_info \<Rightarrow> pyexn + real list \<times> real list" where
  "target_samples geo =
     (case linspace (bottom_left_lon geo) (top_right_lon geo) (grid_cols geo) of
        Inl e \<Rightarrow> Inl e
      | Inr lon \<Rightarrow>
          (case linspace (bottom_left_lat geo) (top_right_lat geo) (grid_rows geo) of
             Inl e \<Rightarrow> Inl e
           | Inr lat \<Rightarrow> Inr (lon, lat)))"

text \<open>The \<open>try\<close>/\<open>except Exception\<close> around the cubic call.\<close>

definition interpolate_with_fallback ::
  "interpolant \<Rightarrow> (real \<times> real) list \<Rightarrow> real list \<Rightarrow> real list list \<times> real list list
     \<Rightarrow> pyexn + grid" where
  "interpolate_with_fallback G points vals xi =
     (case griddata G points vals xi Cubic of
        Inr g \<Rightarrow> Inr g
      | Inl e \<Rightarrow> griddata G points vals xi Linear)"

text \<open>\<open>grid_humidity[~np.isnan(grid_humidity)]\<close>: the numbers of the grid, row by row.\<close>

definition valid_grid :: "grid \<Rightarrow> real list" where
  "valid_grid g = List.map_filter (\<lambda>v. v) (concat g)"

definition inner_values :: "real list \<Rightarrow> real list" where
  "inner_values vs = filter (\<lambda>v. 1 / 10 < v \<and> v < 999 / 10) vs"

definition compute_stats :: "grid \<Rightarrow> nat \<Rightarrow> frame_stats" where
  "compute_stats g n =
     (let vg = valid_grid g; iv = inner_values vg
      in \<lparr> stat_min = (if 0 < length iv then Some (py_round1 (Min (set iv))) else None),
           stat_max = (if 0 < length iv then Some (py_round1 (Max (set iv))) else None),
           stat_avg = (if 0 < length vg
                       then Some (py_round1 (sum_list vg / real (length vg))) else None),
           valid_points = length vg,
           station_count = n \<rparr>)"

definition grid_list :: "grid \<Rightarrow> grid" where
  "grid_list g = map (map (map_option py_round1)) g"

text \<open>
  The mask step of the function: the global is consulted only here, after clipping.
\<close>

definition apply_land_mask ::
  "temp_file \<Rightarrow> mask option \<Rightarrow> grid \<Rightarrow> (pyexn + grid) \<times> mask option" where
  "apply_land_mask file LAND_MASK g =
     (case get_land_mask file LAND_MASK of
        (None, L) \<Rightarrow> (Inr g, L)
      | (Some land_mask, L) \<Rightarrow> (assign_nan_where_not g land_mask, L))"

text \<open>
  The function itself. Its result is the pair (grid or \<open>None\<close>, statistics), or the
  exception that leaves it; the second component is the global \<open>LAND_MASK\<close> afterwards.
\<close>

definition interpolate_humidity ::
  "(string \<Rightarrow> real option) \<Rightarrow> interpolant \<Rightarrow> temp_file \<Rightarrow> mask option
     \<Rightarrow> station list \<Rightarrow> geo_info
     \<Rightarrow> (pyexn + grid option \<times> stats_dict) \<times> mask option" where
  "interpolate_humidity sf G file LAND_MASK stations geo =
     (let valid_stations = filter valid_station stations
      in if length valid_stations < 4
         then (Inr (None, ErrorDict ''Not enough valid stations''), LAND_MASK)
         else
           (case collect (map (point_of sf) valid_stations) of
              Inl e \<Rightarrow> (Inl e, LAND_MASK)
            | Inr points \<Rightarrow>
           (case collect (map (\<lambda>s. field sf s ''humidity'') valid_stations) of
              Inl e \<Rightarrow> (Inl e, LAND_MASK)
            | Inr vals \<Rightarrow>
           (case target_samples geo of
              Inl e \<Rightarrow> (Inl e, LAND_MASK)
            | Inr (lon, lat) \<Rightarrow>
           (case interpolate_with_fallback G points vals (meshgrid lon lat) of
              Inl e \<Rightarrow> (Inl e, LAND_MASK)
            | Inr grid_humidity \<Rightarrow>
           (case apply_land_mask file LAND_MASK (clip grid_humidity 0 100) of
              (Inl e, L) \<Rightarrow> (Inl e, L)
            | (Inr masked, L) \<Rightarrow>
                (Inr (Some (grid_list masked),
                      StatsDict (compute_stats masked (length valid_stations))), L)))))))"

section \<open>Small inputs on which the functions are run\<close>

definition example_station :: "json \<Rightarrow> json \<Rightarrow> json \<Rightarrow> station" where
  "example_station lon lat hum =
     [''longitude'' \<mapsto> lon, ''latitude'' \<mapsto> lat, ''humidity'' \<mapsto> hum]"

text \<open>Four complete stations and one without a humidity reading.\<close>

definition stations_four :: "station list" where
  "stations_four =
     [example_station (JNum 0) (JNum 0) (JNum 10),
      example_station (JNum 2) (JNum 0) (JNum 20),
      example_station (JNum 1) (JNum 1) JNull,
      example_station (JNum 0) (JNum 1) (JNum 30),
      example_station (JNum 2) (JNum 1) (JNum 40)]"

definition stations_three :: "station list" where
  "stations_three = tl stations_four"

definition geo_small :: geo_info where
  "geo_small = \<lparr> bottom_left_lon = 0, bottom_left_lat = 0,
      top_right_lon = 2, top_right_lat = 1,
      resolution_deg = 1, resolution_km = 111,
      grid_rows = 2, grid_cols = 3 \<rparr>"

definition no_strings :: "string \<Rightarrow> real option" where
  "no_strings s = None"

text \<open>
  An interpolant whose cubic construction raises and whose linear one is a plane that is
  undefined west of longitude 1 and leaves the range 0 to 100 in the east.
\<close>

definition G_linear_only :: interpolant where
  "G_linear_only method points vals =
     (case method of
        Cubic \<Rightarrow> Inl QhullError
      | Linear \<Rightarrow> Inr (\<lambda>p. if fst p < 1 then None else Some (fst p * 60 - snd p)))"

text \<open>A mask for \<open>geo_small\<close> with two cells marked unusable.\<close>

definition mask_small :: mask where
  "mask_small = [[True, False, True], [True, True, False]]"

text \<open>A mask of two columns, one fewer than \<open>geo_small\<close> has.\<close>

definition mask_narrow :: mask where
  "mask_narrow = [[True, False], [True, True]]"

text \<open>A reference dataset whose first frame is a grid of two rows and two columns.\<close>

definition example_dataset :: json where
  "example_dataset =
     JObj [(''metadata'', JObj []),
           (''frames'',
            JArr [JObj [(''time'', JStr ''t0''),
                        (''data'', JArr [JArr [JNum 25, JNull],
                                         JArr [JNum (- 999), JNum 18]])]])]"

text \<open>Four complete stations on the line of latitude 0.\<close>

definition stations_on_a_line :: "station list" where
  "stations_on_a_line =
     [example_station (JNum 0) (JNum 0) (JNum 10),
      example_station (JNum 1) (JNum 0) (JNum 20),
      example_station (JNum 2) (JNum 0) (JNum 30),
      example_station (JNum 3) (JNum 0) (JNum 40)]"

text \<open>
  A reference dataset whose first frame has no data, as \<open>update_data.py\<close> writes it
  (\<open>'data': data.get('data', [])\<close>) for a downloaded frame without a \<open>data\<close> key.
\<close>

definition empty_frame_dataset :: json where
  "empty_frame_dataset =
     JObj [(''metadata'', JObj []),
           (''frames'', JArr [JObj [(''time'', JStr ''t0''), (''data'', JArr [])]])]"

section \<open>Facts about the building blocks\<close>

lemma valid_station_iff:
  "valid_station s \<longleftrightarrow>
     (\<forall>k \<in> {''humidity'', ''latitude'', ''longitude''}. s k \<noteq> None \<and> s k \<noteq> Some JNull)"
  by (auto simp: valid_station_def present_def split: option.splits json.splits)

lemma interpolate_humidity_few:
  "length (filter valid_station stations) < 4 \<Longrightarrow>
   interpolate_humidity sf G tf L stations geo =
     (Inr (None, ErrorDict ''Not enough valid stations''), L)"
  by (simp add: interpolate_humidity_def)

text \<open>Every way in which the function returns rather than raises.\<close>

lemma interpolate_humidity_returns:
  assumes "interpolate_humidity sf G tf L stations geo = (Inr (res, sd), L')"
  shows "(length (filter valid_station stations) < 4 \<and> res = None
           \<and> sd = ErrorDict ''Not enough valid stations'' \<and> L' = L)
       \<or> (\<exists>points vals lon lat g masked.
             4 \<le> length (filter valid_station stations)
           \<and> collect (map (point_of sf) (filter valid_station stations)) = Inr points
           \<and> collect (map (\<lambda>s. field sf s ''humidity'') (filter valid_station stations))
                 = Inr vals
           \<and> target_samples geo = Inr (lon, lat)
           \<and> interpolate_with_fallback G points vals (meshgrid lon lat) = Inr g
           \<and> apply_land_mask tf L (clip g 0 100) = (Inr masked, L')
           \<and> res = Some (grid_list masked)
           \<and> sd = StatsDict (compute_stats masked (length (filter valid_station stations))))"
  using assms unfolding interpolate_humidity_def Let_def
  by (auto split: if_splits sum.splits prod.splits)

lemma round_half_even_near:
  "of_int (round_half_even x) \<le> x + 1 / 2" "x - 1 / 2 \<le> of_int (round_half_even x)"
  unfolding round_half_even_def Let_def by (auto; linarith)+

lemma py_round1_range:
  assumes "0 \<le> x" "x \<le> 100"
  shows "0 \<le> py_round1 x \<and> py_round1 x \<le> 100"
proof -
  have near: "of_int (round_half_even (x * 10)) \<le> x * 10 + 1 / 2"
    "x * 10 - 1 / 2 \<le> of_int (round_half_even (x * 10))"
    using round_half_even_near by auto
  have "(- 1 :: real) < of_int (round_half_even (x * 10))"
    using near assms by linarith
  then have "(- 1 :: int) < round_half_even (x * 10)" by linarith
  then have lo: "0 \<le> round_half_even (x * 10)" by linarith
  have "of_int (round_half_even (x * 10)) < (1001 :: real)"
    using near assms by linarith
  then have "round_half_even (x * 10) < 1001" by linarith
  then have hi: "round_half_even (x * 10) \<le> 1000" by linarith
  show ?thesis unfolding py_round1_def using lo hi
    by (simp add: field_simps)
qed

lemma linspace_Inr:
  "0 \<le> num \<Longrightarrow> \<exists>ys. linspace a b num = Inr ys \<and> length ys = nat num"
  by (simp add: linspace_def Let_def)

lemma linspace_length:
  "linspace a b num = Inr ys \<Longrightarrow> 0 \<le> num \<and> length ys = nat num"
  by (auto simp: linspace_def Let_def split: if_splits)

lemma target_samples_length:
  "target_samples geo = Inr (lon, lat) \<Longrightarrow>
     0 \<le> grid_cols geo \<and> length lon = nat (grid_cols geo) \<and>
     0 \<le> grid_rows geo \<and> length lat = nat (grid_rows geo)"
  by (auto simp: target_samples_def split: sum.splits dest: linspace_length)

lemma target_samples_Inr:
  assumes "0 \<le> grid_rows geo" "0 \<le> grid_cols geo"
  shows "\<exists>lon lat. target_samples geo = Inr (lon, lat)"
proof -
  obtain lon where
    "linspace (bottom_left_lon geo) (top_right_lon geo) (grid_cols geo) = Inr lon"
    using linspace_Inr[OF assms(2)] by blast
  moreover obtain lat where
    "linspace (bottom_left_lat geo) (top_right_lat geo) (grid_rows geo) = Inr lat"
    using linspace_Inr[OF assms(1)] by blast
  ultimately show ?thesis by (simp add: target_samples_def)
qed

lemma zip_const: "zip xs (map (\<lambda>x. y) xs) = map (\<lambda>x. (x, y)) xs"
  by (induction xs) simp_all

text \<open>On the mesh, griddata evaluates the interpolant at \<open>(lon[c], lat[r])\<close>.\<close>

lemma griddata_meshgrid:
  "griddata G p v (meshgrid lon lat) m =
     (case G m p v of
        Inl e \<Rightarrow> Inl e
      | Inr f \<Rightarrow> Inr (map (\<lambda>y. map (\<lambda>x. f (x, y)) lon) lat))"
proof -
  have "map2 (map2 (\<lambda>x y. f (x, y))) (map (\<lambda>y. lon) lat) (map (\<lambda>y. map (\<lambda>x. y) lon) lat)
      = map (\<lambda>y. map (\<lambda>x. f (x, y)) lon) lat" for f :: "real \<times> real \<Rightarrow> real option"
    by (simp add: map2_map_map zip_const comp_def)
  then show ?thesis
    by (simp add: griddata_def meshgrid_def split: sum.splits)
qed

lemma fallback_shape:
  "interpolate_with_fallback G p v (meshgrid lon lat) = Inr g \<Longrightarrow>
     map length g = replicate (length lat) (length lon)"
  by (auto simp: interpolate_with_fallback_def griddata_meshgrid map_replicate_const comp_def
           split: sum.splits)

lemma clip_shape: "map length (clip g lo hi) = map length g"
  by (simp add: clip_def comp_def)

lemma grid_list_shape: "map length (grid_list g) = map length g"
  by (simp add: grid_list_def comp_def)

lemma assign_shape:
  assumes "assign_nan_where_not a m = Inr b"
  shows "map length b = map length a \<and> map length m = map length a \<and> concat m \<noteq> []"
proof -
  have s: "map length m = map length a" and c: "concat m \<noteq> []"
    and b: "b = map2 (map2 (\<lambda>v keep. if keep then v else None)) a m"
    using assms by (auto simp: assign_nan_where_not_def split: if_splits)
  have la: "length m = length a" using s by (metis length_map)
  have "map length b = map length a"
  proof (rule nth_equalityI)
    show "length (map length b) = length (map length a)" using b la by simp
  next
    fix i assume "i < length (map length b)"
    then have i: "i < length a" "i < length m" using b la by simp_all
    have "length (m ! i) = length (a ! i)" using s i by (metis nth_map)
    then show "map length b ! i = map length a ! i" using b i by simp
  qed
  then show ?thesis using s c by simp
qed

lemma fallback_cases:
  "interpolate_with_fallback G p v (meshgrid lon lat) =
     (case G Cubic p v of
        Inr f \<Rightarrow> Inr (map (\<lambda>y. map (\<lambda>x. f (x, y)) lon) lat)
      | Inl e \<Rightarrow>
          (case G Linear p v of
             Inl e' \<Rightarrow> Inl e'
           | Inr f \<Rightarrow> Inr (map (\<lambda>y. map (\<lambda>x. f (x, y)) lon) lat)))"
  by (simp add: interpolate_with_fallback_def griddata_meshgrid split: sum.splits)

lemma apply_land_mask_fits:
  assumes "map length a = replicate rows cols"
    and "fst (get_land_mask tf L) = None \<or>
         (\<exists>m. fst (get_land_mask tf L) = Some m \<and> concat m \<noteq> []
              \<and> map length m = replicate rows cols)"
  shows "\<exists>b. apply_land_mask tf L a = (Inr b, snd (get_land_mask tf L))"
  using assms
  by (auto simp: apply_land_mask_def assign_nan_where_not_def split: prod.splits option.splits)

lemma apply_land_mask_shape:
  "apply_land_mask tf L a = (Inr b, L') \<Longrightarrow> map length b = map length a"
  by (auto simp: apply_land_mask_def split: prod.splits option.splits dest: assign_shape)

lemma interpolate_humidity_proceeds:
  assumes "4 \<le> length (filter valid_station stations)"
    and "collect (map (point_of sf) (filter valid_station stations)) = Inr points"
    and "collect (map (\<lambda>s. field sf s ''humidity'') (filter valid_station stations)) = Inr vals"
    and "target_samples geo = Inr (lon, lat)"
    and "interpolate_with_fallback G points vals (meshgrid lon lat) = Inr g"
    and "apply_land_mask tf L (clip g 0 100) = (Inr masked, L')"
  shows "interpolate_humidity sf G tf L stations geo =
           (Inr (Some (grid_list masked),
                 StatsDict (compute_stats masked (length (filter valid_station stations)))), L')"
  using assms by (simp add: interpolate_humidity_def Let_def)

lemma interpolate_humidity_produces_grid:
  assumes n: "4 \<le> length (filter valid_station stations)"
    and p: "collect (map (point_of sf) (filter valid_station stations)) = Inr points"
    and v: "collect (map (\<lambda>s. field sf s ''humidity'') (filter valid_station stations)) = Inr vals"
    and r: "0 \<le> grid_rows geo" "0 \<le> grid_cols geo"
    and i: "(\<exists>f. G Cubic points vals = Inr f) \<or> (\<exists>f. G Linear points vals = Inr f)"
    and m: "fst (get_land_mask tf L) = None \<or>
         (\<exists>m. fst (get_land_mask tf L) = Some m \<and> concat m \<noteq> []
              \<and> map length m = replicate (nat (grid_rows geo)) (nat (grid_cols geo)))"
  shows "\<exists>out s. interpolate_humidity sf G tf L stations geo =
              (Inr (Some out, StatsDict s), snd (get_land_mask tf L))
           \<and> map length out = replicate (nat (grid_rows geo)) (nat (grid_cols geo))
           \<and> station_count s = length (filter valid_station stations)"
proof -
  obtain lon lat where t: "target_samples geo = Inr (lon, lat)"
    using target_samples_Inr[OF r] by blast
  have len: "length lon = nat (grid_cols geo)" "length lat = nat (grid_rows geo)"
    using target_samples_length[OF t] by simp_all
  have "\<exists>g. interpolate_with_fallback G points vals (meshgrid lon lat) = Inr g"
    using i by (cases "G Cubic points vals") (auto simp: fallback_cases)
  then obtain g where g: "interpolate_with_fallback G points vals (meshgrid lon lat) = Inr g"
    by blast
  have gs: "map length (clip g 0 100) = replicate (nat (grid_rows geo)) (nat (grid_cols geo))"
    using fallback_shape[OF g] len by (simp add: clip_shape)
  obtain masked where a:
    "apply_land_mask tf L (clip g 0 100) = (Inr masked, snd (get_land_mask tf L))"
    using apply_land_mask_fits[OF gs m] by blast
  have "map length (grid_list masked) = replicate (nat (grid_rows geo)) (nat (grid_cols geo))"
    using apply_land_mask_shape[OF a] gs by (simp add: grid_list_shape)
  moreover have "station_count (compute_stats masked (length (filter valid_station stations)))
      = length (filter valid_station stations)"
    by (simp add: compute_stats_def Let_def)
  ultimately show ?thesis
    using interpolate_humidity_proceeds[OF n p v t g a] by blast
qed


lemma four_valid:
  "filter valid_station stations_four =
     [example_station (JNum 0) (JNum 0) (JNum 10),
      example_station (JNum 2) (JNum 0) (JNum 20),
      example_station (JNum 0) (JNum 1) (JNum 30),
      example_station (JNum 2) (JNum 1) (JNum 40)]"
  by (simp add: stations_four_def example_station_def valid_station_def present_def)

lemma three_valid: "length (filter valid_station stations_three) = 3"
  by (simp add: stations_three_def stations_four_def example_station_def valid_station_def present_def)

lemma four_points:
  "collect (map (point_of no_strings) (filter valid_station stations_four))
     = Inr [(0, 0), (2, 0), (0, 1), (2, 1)]"
  by (simp add: four_valid example_station_def point_of_def field_def)

lemma four_values:
  "collect (map (\<lambda>s. field no_strings s ''humidity'') (filter valid_station stations_four))
     = Inr [10, 20, 30, 40]"
  by (simp add: four_valid example_station_def field_def)

section \<open>The station threshold\<close>

text \<open>
  Claim C1. \<open>interpolate_humidity\<close> keeps the stations whose humidity, latitude and
  longitude are all present (neither missing nor null). With fewer than four of them it
  returns no grid and the dictionary \<open>{'error': 'Not enough valid stations'}\<close>, raises
  nothing and leaves the global untouched. With four or more it never returns "no grid":
  it goes on to the interpolation, and returns a grid of \<open>grid_rows\<close> rows and
  \<open>grid_cols\<close> columns whenever the conversions to float, the grid sampling, one of the
  two interpolations and the mask step succeed.
\<close>

theorem interpolate_humidity_station_threshold:
  "(\<forall>s. valid_station s \<longleftrightarrow>
        (\<forall>k \<in> {''humidity'', ''latitude'', ''longitude''}. s k \<noteq> None \<and> s k \<noteq> Some JNull))
   \<and> (length (filter valid_station stations) < 4 \<longrightarrow>
        interpolate_humidity sf G tf L stations geo =
          (Inr (None, ErrorDict ''Not enough valid stations''), L))
   \<and> (4 \<le> length (filter valid_station stations) \<longrightarrow>
        (\<forall>sd L'. interpolate_humidity sf G tf L stations geo \<noteq> (Inr (None, sd), L'))
      \<and> (collect (map (point_of sf) (filter valid_station stations)) = Inr points
         \<and> collect (map (\<lambda>s. field sf s ''humidity'') (filter valid_station stations)) = Inr vals
         \<and> 0 \<le> grid_rows geo \<and> 0 \<le> grid_cols geo
         \<and> ((\<exists>f. G Cubic points vals = Inr f) \<or> (\<exists>f. G Linear points vals = Inr f))
         \<and> (fst (get_land_mask tf L) = None \<or>
              (\<exists>m. fst (get_land_mask tf L) = Some m \<and> concat m \<noteq> []
                  \<and> map length m = replicate (nat (grid_rows geo)) (nat (grid_cols geo))))
         \<longrightarrow> (\<exists>out s. interpolate_humidity sf G tf L stations geo =
                          (Inr (Some out, StatsDict s), snd (get_land_mask tf L))
                 \<and> map length out = replicate (nat (grid_rows geo)) (nat (grid_cols geo))
                 \<and> station_count s = length (filter valid_station stations))))"
proof (intro conjI allI impI)
  fix s show "valid_station s \<longleftrightarrow>
        (\<forall>k \<in> {''humidity'', ''latitude'', ''longitude''}. s k \<noteq> None \<and> s k \<noteq> Some JNull)"
    by (rule valid_station_iff)
next
  assume "length (filter valid_station stations) < 4"
  then show "interpolate_humidity sf G tf L stations geo =
          (Inr (None, ErrorDict ''Not enough valid stations''), L)"
    by (rule interpolate_humidity_few)
next
  fix sd L'
  assume n: "4 \<le> length (filter valid_station stations)"
  show "interpolate_humidity sf G tf L stations geo \<noteq> (Inr (None, sd), L')"
  proof
    assume "interpolate_humidity sf G tf L stations geo = (Inr (None, sd), L')"
    from interpolate_humidity_returns[OF this] n show False by auto
  qed
next
  assume n: "4 \<le> length (filter valid_station stations)"
    and h: "collect (map (point_of sf) (filter valid_station stations)) = Inr points
         \<and> collect (map (\<lambda>s. field sf s ''humidity'') (filter valid_station stations)) = Inr vals
         \<and> 0 \<le> grid_rows geo \<and> 0 \<le> grid_cols geo
         \<and> ((\<exists>f. G Cubic points vals = Inr f) \<or> (\<exists>f. G Linear points vals = Inr f))
         \<and> (fst (get_land_mask tf L) = None \<or>
              (\<exists>m. fst (get_land_mask tf L) = Some m \<and> concat m \<noteq> []
                  \<and> map length m = replicate (nat (grid_rows geo)) (nat (grid_cols geo))))"
  show "\<exists>out s. interpolate_humidity sf G tf L stations geo =
                          (Inr (Some out, StatsDict s), snd (get_land_mask tf L))
                 \<and> map length out = replicate (nat (grid_rows geo)) (nat (grid_cols geo))
                 \<and> station_count s = length (filter valid_station stations)"
    using interpolate_humidity_produces_grid[OF n] h by blast
qed

theorem interpolate_humidity_station_threshold_witness:
  "length (filter valid_station stations_three) = 3
   \<and> interpolate_humidity no_strings G_linear_only Missing None stations_three geo_small =
       (Inr (None, ErrorDict ''Not enough valid stations''), None)
   \<and> length (filter valid_station stations_four) = 4
   \<and> (\<exists>out s. interpolate_humidity no_strings G_linear_only Missing None stations_four geo_small =
                   (Inr (Some out, StatsDict s), None)
            \<and> map length out = [3, 3] \<and> station_count s = 4)"
proof -
  have g: "(\<exists>f. G_linear_only Cubic [(0, 0), (2, 0), (0, 1), (2, 1)] [10, 20, 30, 40] = Inr f)
         \<or> (\<exists>f. G_linear_only Linear [(0, 0), (2, 0), (0, 1), (2, 1)] [10, 20, 30, 40] = Inr f)"
    by (simp add: G_linear_only_def)
  have m: "get_land_mask Missing None = (None, None)"
    by (simp add: get_land_mask_def load_land_mask_def)
  then have m': "fst (get_land_mask Missing None) = None \<or>
              (\<exists>m. fst (get_land_mask Missing None) = Some m \<and> concat m \<noteq> []
                  \<and> map length m = replicate (nat (grid_rows geo_small)) (nat (grid_cols geo_small)))"
    by simp
  have geo: "0 \<le> grid_rows geo_small" "0 \<le> grid_cols geo_small"
    by (simp_all add: geo_small_def)
  have r: "replicate (nat (grid_rows geo_small)) (nat (grid_cols geo_small)) = [3, 3]"
    by (simp add: geo_small_def numeral_2_eq_2)
  have n3: "length (filter valid_station stations_three) < 4"
    by (simp add: three_valid)
  have n4: "length (filter valid_station stations_four) = 4"
    by (simp add: four_valid)
  have few: "interpolate_humidity no_strings G_linear_only Missing None stations_three geo_small =
       (Inr (None, ErrorDict ''Not enough valid stations''), None)"
    by (rule interpolate_humidity_station_threshold
            [where stations = stations_three and sf = no_strings and G = G_linear_only
               and tf = Missing and L = None and geo = geo_small,
             THEN conjunct2, THEN conjunct1, THEN mp, OF n3])
  have c: "4 \<le> length (filter valid_station stations_four)"
    by (simp add: four_valid)
  have "\<exists>out s. interpolate_humidity no_strings G_linear_only Missing None stations_four geo_small =
                   (Inr (Some out, StatsDict s), snd (get_land_mask Missing None))
            \<and> map length out = replicate (nat (grid_rows geo_small)) (nat (grid_cols geo_small))
            \<and> station_count s = length (filter valid_station stations_four)"
    by (rule interpolate_humidity_station_threshold
            [where stations = stations_four and sf = no_strings and G = G_linear_only
               and tf = Missing and L = None and geo = geo_small
               and points = "[(0, 0), (2, 0), (0, 1), (2, 1)]" and vals = "[10, 20, 30, 40]",
             THEN conjunct2, THEN conjunct2, THEN mp, OF c, THEN conjunct2, THEN mp])
       (intro conjI four_points four_values geo g m')
  then have many: "\<exists>out s. interpolate_humidity no_strings G_linear_only Missing None stations_four geo_small =
                   (Inr (Some out, StatsDict s), None)
            \<and> map length out = [3, 3] \<and> station_count s = 4"
    by (simp add: m r n4)
  show ?thesis using three_valid few n4 many by (intro conjI)
qed

subsection \<open>Two concrete runs\<close>

lemma small_samples: "target_samples geo_small = Inr ([0, 1, 2], [0, 1])"
  by (simp add: target_samples_def linspace_def geo_small_def Let_def upt_rec
        numeral_2_eq_2 numeral_3_eq_3)

lemma small_interp:
  "interpolate_with_fallback G_linear_only [(0, 0), (2, 0), (0, 1), (2, 1)] [10, 20, 30, 40]
      (meshgrid [0, 1, 2] [0, 1])
     = Inr [[None, Some 60, Some 120], [None, Some 59, Some 119]]"
  by (simp add: fallback_cases G_linear_only_def)

lemma small_clip:
  "clip [[None, Some 60, Some 120], [None, Some 59, Some 119]] 0 100
     = [[None, Some 60, Some 100], [None, Some 59, Some 100]]"
  by (simp add: clip_def)

lemma round_half_even_of_int: "round_half_even (of_int k) = k"
  by (simp add: round_half_even_def)

lemma py_round1_tenths: "py_round1 (of_int k / 10) = of_int k / 10"
  by (simp add: py_round1_def round_half_even_of_int)

lemma py_round1_examples:
  "py_round1 60 = 60" "py_round1 59 = 59" "py_round1 100 = 100" "py_round1 (159 / 2) = 159 / 2"
  using py_round1_tenths[of 600] py_round1_tenths[of 590] py_round1_tenths[of 1000]
    py_round1_tenths[of 795]
  by simp_all

lemma py_round1_tie: "py_round1 (319 / 4) = 798 / 10"
  by (simp add: py_round1_def round_half_even_def Let_def)

lemma small_unmasked:
  "apply_land_mask Missing None [[None, Some 60, Some 100], [None, Some 59, Some 100]]
     = (Inr [[None, Some 60, Some 100], [None, Some 59, Some 100]], None)"
  by (simp add: apply_land_mask_def get_land_mask_def load_land_mask_def)

lemma small_masked:
  "apply_land_mask tf (Some mask_small) [[None, Some 60, Some 100], [None, Some 59, Some 100]]
     = (Inr [[None, None, Some 100], [None, Some 59, None]], Some mask_small)"
  by (simp add: apply_land_mask_def get_land_mask_def assign_nan_where_not_def mask_small_def
        Let_def)

lemma run_unmasked:
  "interpolate_humidity no_strings G_linear_only Missing None stations_four geo_small
     = (Inr (Some [[None, Some 60, Some 100], [None, Some 59, Some 100]],
             StatsDict \<lparr> stat_min = Some 59, stat_max = Some 60, stat_avg = Some (798 / 10),
                         valid_points = 4, station_count = 4 \<rparr>), None)"
proof -
  have n: "4 \<le> length (filter valid_station stations_four)"
    by (simp add: four_valid)
  have g: "grid_list [[None, Some 60, Some 100], [None, Some 59, Some 100]]
             = [[None, Some 60, Some 100], [None, Some 59, Some 100]]"
    by (simp add: grid_list_def py_round1_examples)
  have s: "compute_stats [[None, Some 60, Some 100], [None, Some 59, Some 100]]
              (length (filter valid_station stations_four))
        = \<lparr> stat_min = Some 59, stat_max = Some 60, stat_avg = Some (798 / 10),
            valid_points = 4, station_count = 4 \<rparr>"
    by (simp add: compute_stats_def valid_grid_def inner_values_def List.map_filter_def Let_def
          py_round1_examples py_round1_tie four_valid)
  have a: "apply_land_mask Missing None
             (clip [[None, Some 60, Some 120], [None, Some 59, Some 119]] 0 100)
        = (Inr [[None, Some 60, Some 100], [None, Some 59, Some 100]], None)"
    by (simp only: small_clip small_unmasked)
  show ?thesis
    using interpolate_humidity_proceeds
            [OF n four_points four_values small_samples small_interp a]
    by (simp only: g s)
qed

lemma run_masked:
  "interpolate_humidity no_strings G_linear_only tf (Some mask_small) stations_four geo_small
     = (Inr (Some [[None, None, Some 100], [None, Some 59, None]],
             StatsDict \<lparr> stat_min = Some 59, stat_max = Some 59, stat_avg = Some (159 / 2),
                         valid_points = 2, station_count = 4 \<rparr>), Some mask_small)"
proof -
  have n: "4 \<le> length (filter valid_station stations_four)"
    by (simp add: four_valid)
  have g: "grid_list [[None, None, Some 100], [None, Some 59, None]]
             = [[None, None, Some 100], [None, Some 59, None]]"
    by (simp add: grid_list_def py_round1_examples)
  have s: "compute_stats [[None, None, Some 100], [None, Some 59, None]]
              (length (filter valid_station stations_four))
        = \<lparr> stat_min = Some 59, stat_max = Some 59, stat_avg = Some (159 / 2),
            valid_points = 2, station_count = 4 \<rparr>"
    by (simp add: compute_stats_def valid_grid_def inner_values_def List.map_filter_def Let_def
          py_round1_examples four_valid)
  have a: "apply_land_mask tf (Some mask_small)
             (clip [[None, Some 60, Some 120], [None, Some 59, Some 119]] 0 100)
        = (Inr [[None, None, Some 100], [None, Some 59, None]], Some mask_small)"
    by (simp only: small_clip small_masked)
  show ?thesis
    using interpolate_humidity_proceeds
            [OF n four_points four_values small_samples small_interp a]
    by (simp only: g s)
qed

subsection \<open>Cells of the clipped, masked and rounded grids\<close>

lemma Some_in_map_option:
  assumes "Some v \<in> set (map (map_option f) xs)"
  shows "\<exists>u. Some u \<in> set xs \<and> v = f u"
proof -
  obtain x where x: "x \<in> set xs" "Some v = map_option f x"
    using assms by auto
  show ?thesis
  proof (cases x)
    case None
    with x show ?thesis by simp
  next
    case (Some u)
    with x show ?thesis by auto
  qed
qed

lemma clip_cell:
  assumes "row \<in> set (clip g 0 100)" "Some v \<in> set row"
  shows "0 \<le> v \<and> v \<le> 100"
proof -
  obtain row' where "row = map (map_option (\<lambda>v. min (max v 0) 100)) row'"
    using assms(1) by (auto simp: clip_def)
  then have "Some v \<in> set (map (map_option (\<lambda>v. min (max v 0) 100)) row')"
    using assms(2) by simp
  from Some_in_map_option[OF this] obtain u where "v = min (max u 0) 100"
    by blast
  then show ?thesis by simp
qed

lemma assign_nth:
  assumes "assign_nan_where_not a m = Inr b" "r < length a" "c < length (a ! r)"
  shows "b ! r ! c = (if m ! r ! c then a ! r ! c else None)"
proof -
  have s: "map length m = map length a"
    and b: "b = map2 (map2 (\<lambda>v keep. if keep then v else None)) a m"
    using assms(1) by (auto simp: assign_nan_where_not_def split: if_splits)
  have la: "length m = length a" using s by (metis length_map)
  have lr: "length (m ! r) = length (a ! r)" using s assms(2) la by (metis nth_map)
  show ?thesis using b assms(2,3) la lr by simp
qed

lemma assign_cell:
  assumes "assign_nan_where_not a m = Inr b" "row \<in> set b" "Some v \<in> set row"
  shows "\<exists>row' \<in> set a. Some v \<in> set row'"
proof -
  have sh: "map length b = map length a" using assign_shape[OF assms(1)] by simp
  have lb: "length b = length a" using sh by (metis length_map)
  obtain r where r: "r < length b" "row = b ! r"
    using assms(2) by (auto simp: in_set_conv_nth)
  have lr: "length (b ! r) = length (a ! r)" using sh r(1) lb by (metis nth_map)
  obtain c where c: "c < length row" "row ! c = Some v"
    using assms(3) by (auto simp: in_set_conv_nth)
  have "b ! r ! c = (if m ! r ! c then a ! r ! c else None)"
    using assign_nth[OF assms(1)] r c lb lr by simp
  then have "a ! r ! c = Some v" using c r by (simp split: if_splits)
  moreover have "c < length (a ! r)" using c r lr by simp
  ultimately have "Some v \<in> set (a ! r)" using nth_mem[of c "a ! r"] by simp
  moreover have "a ! r \<in> set a" using r(1) lb by simp
  ultimately show ?thesis by (rule_tac x = "a ! r" in bexI)
qed

lemma apply_land_mask_cases:
  assumes "apply_land_mask tf L a = (Inr b, L')"
  shows "(fst (get_land_mask tf L) = None \<and> b = a)
       \<or> (\<exists>m. fst (get_land_mask tf L) = Some m \<and> assign_nan_where_not a m = Inr b)"
  using assms by (auto simp: apply_land_mask_def split: prod.splits option.splits)

lemma apply_land_mask_cell:
  assumes "apply_land_mask tf L a = (Inr b, L')" "row \<in> set b" "Some v \<in> set row"
  shows "\<exists>row' \<in> set a. Some v \<in> set row'"
proof -
  from apply_land_mask_cases[OF assms(1)] show ?thesis
  proof
    assume "fst (get_land_mask tf L) = None \<and> b = a"
    then show ?thesis using assms(2,3) by blast
  next
    assume "\<exists>m. fst (get_land_mask tf L) = Some m \<and> assign_nan_where_not a m = Inr b"
    then obtain m where "assign_nan_where_not a m = Inr b" by blast
    from assign_cell[OF this assms(2,3)] show ?thesis .
  qed
qed

lemma grid_list_cell:
  assumes "row \<in> set (grid_list a)" "Some v \<in> set row"
  shows "\<exists>row' \<in> set a. \<exists>u. Some u \<in> set row' \<and> v = py_round1 u"
proof -
  obtain row' where r: "row' \<in> set a" "row = map (map_option py_round1) row'"
    using assms(1) by (auto simp: grid_list_def)
  have "Some v \<in> set (map (map_option py_round1) row')"
    using assms(2) r(2) by simp
  from Some_in_map_option[OF this] obtain u where "Some u \<in> set row'" "v = py_round1 u"
    by blast
  then show ?thesis using r(1) by blast
qed

section \<open>Clamping\<close>

text \<open>
  Claim C2. Whenever \<open>interpolate_humidity\<close> returns a grid, every cell of it that is
  not "no data" holds a number between 0 and 100, both included: the interpolated values
  are clipped to that range, the mask only removes cells, and rounding to one decimal
  place does not leave the range.
\<close>

theorem interpolate_humidity_clamped:
  assumes "interpolate_humidity sf G tf L stations geo = (Inr (Some out, sd), L')"
  shows "\<forall>row \<in> set out. \<forall>v. Some v \<in> set row \<longrightarrow> 0 \<le> v \<and> v \<le> 100"
proof (intro ballI allI impI)
  fix row v assume row: "row \<in> set out" and v: "Some v \<in> set row"
  from interpolate_humidity_returns[OF assms]
  obtain g masked where m: "apply_land_mask tf L (clip g 0 100) = (Inr masked, L')"
    and out: "out = grid_list masked"
    by auto
  have "row \<in> set (grid_list masked)" using row out by simp
  from grid_list_cell[OF this v]
  obtain row' u where u: "row' \<in> set masked" "Some u \<in> set row'" "v = py_round1 u"
    by blast
  obtain row'' where "row'' \<in> set (clip g 0 100)" "Some u \<in> set row''"
    using apply_land_mask_cell[OF m u(1,2)] by blast
  then have "0 \<le> u \<and> u \<le> 100" by (rule clip_cell)
  then show "0 \<le> v \<and> v \<le> 100" using u(3) py_round1_range by simp
qed

theorem interpolate_humidity_clamped_witness:
  "interpolate_humidity no_strings G_linear_only Missing None stations_four geo_small
     = (Inr (Some [[None, Some 60, Some 100], [None, Some 59, Some 100]],
             StatsDict \<lparr> stat_min = Some 59, stat_max = Some 60, stat_avg = Some (798 / 10),
                         valid_points = 4, station_count = 4 \<rparr>), None)
   \<and> Some 100 \<in> set [None, Some 59, Some (100 :: real)]
   \<and> (0 :: real) \<le> 100 \<and> (100 :: real) \<le> 100"
proof -
  have row: "[None, Some 59, Some (100 :: real)]
      \<in> set [[None, Some 60, Some 100], [None, Some 59, Some 100]]"
    by simp
  have cell: "Some 100 \<in> set [None, Some 59, Some (100 :: real)]"
    by simp
  from interpolate_humidity_clamped[OF run_unmasked, THEN bspec, OF row, THEN spec, THEN mp,
         OF cell]
  show ?thesis using run_unmasked cell by (intro conjI) simp_all
qed

section \<open>Rounding of the cells\<close>

text \<open>
  Claim C9. Whenever \<open>interpolate_humidity\<close> returns a grid, every numeric cell of it
  is a whole number of tenths: the cells, and not only the statistics, are rounded to one
  decimal place.
\<close>

theorem interpolate_humidity_cells_rounded:
  assumes "interpolate_humidity sf G tf L stations geo = (Inr (Some out, sd), L')"
  shows "\<forall>row \<in> set out. \<forall>v. Some v \<in> set row \<longrightarrow> (\<exists>k :: int. v = of_int k / 10)"
proof (intro ballI allI impI)
  fix row v assume row: "row \<in> set out" and v: "Some v \<in> set row"
  from interpolate_humidity_returns[OF assms]
  obtain masked where out: "out = grid_list masked"
    by auto
  have "row \<in> set (grid_list masked)" using row out by simp
  from grid_list_cell[OF this v] obtain u where "v = py_round1 u"
    by blast
  then show "\<exists>k :: int. v = of_int k / 10"
    unfolding py_round1_def by blast
qed

theorem interpolate_humidity_cells_rounded_witness:
  "interpolate_humidity no_strings G_linear_only Missing (Some mask_small) stations_four
       geo_small
     = (Inr (Some [[None, None, Some 100], [None, Some 59, None]],
             StatsDict \<lparr> stat_min = Some 59, stat_max = Some 59, stat_avg = Some (159 / 2),
                         valid_points = 2, station_count = 4 \<rparr>), Some mask_small)
   \<and> Some 59 \<in> set [None, Some (59 :: real), None]
   \<and> (\<exists>k :: int. (59 :: real) = of_int k / 10)"
proof -
  have row: "[None, Some (59 :: real), None]
      \<in> set [[None, None, Some 100], [None, Some 59, None]]"
    by simp
  have cell: "Some 59 \<in> set [None, Some (59 :: real), None]"
    by simp
  from interpolate_humidity_cells_rounded[OF run_masked, THEN bspec, OF row, THEN spec,
         THEN mp, OF cell]
  show ?thesis using run_masked[of Missing] cell by (intro conjI)
qed

lemma grid_list_nth:
  "r < length a \<Longrightarrow> c < length (a ! r) \<Longrightarrow>
     grid_list a ! r ! c = map_option py_round1 (a ! r ! c)"
  by (simp add: grid_list_def)

section \<open>The land mask applied to the grid\<close>

text \<open>
  Claim C3. When \<open>get_land_mask\<close> supplies a mask and \<open>interpolate_humidity\<close> returns
  a grid, the grid has the mask's shape and every cell that the mask marks \<open>False\<close> is
  "no data", whatever was interpolated there. Masking comes after clamping: a cell that
  the mask keeps is the rounded value of a grid whose numbers all lie between 0 and 100.
\<close>

theorem interpolate_humidity_masked:
  assumes ret: "interpolate_humidity sf G tf L stations geo = (Inr (Some out, sd), L')"
    and mask: "fst (get_land_mask tf L) = Some m"
  shows "map length out = map length m
       \<and> (\<forall>r c. r < length m \<longrightarrow> c < length (m ! r) \<longrightarrow> \<not> m ! r ! c \<longrightarrow> out ! r ! c = None)
       \<and> (\<exists>a. (\<forall>row \<in> set a. \<forall>v. Some v \<in> set row \<longrightarrow> 0 \<le> v \<and> v \<le> 100)
              \<and> (\<forall>r c. r < length m \<longrightarrow> c < length (m ! r) \<longrightarrow>
                     out ! r ! c
                       = (if m ! r ! c then map_option py_round1 (a ! r ! c) else None)))"
proof -
  from interpolate_humidity_returns[OF ret]
  obtain g masked where am: "apply_land_mask tf L (clip g 0 100) = (Inr masked, L')"
    and out: "out = grid_list masked"
    by auto
  have as: "assign_nan_where_not (clip g 0 100) m = Inr masked"
    using apply_land_mask_cases[OF am] mask by auto
  have sh: "map length masked = map length (clip g 0 100)"
    "map length m = map length (clip g 0 100)"
    using assign_shape[OF as] by simp_all
  have lm: "length m = length (clip g 0 100)" "length masked = length (clip g 0 100)"
    using sh by (metis length_map)+
  have cell: "out ! r ! c
        = (if m ! r ! c then map_option py_round1 (clip g 0 100 ! r ! c) else None)"
    if rc: "r < length m" "c < length (m ! r)" for r c
  proof -
    have r': "r < length (clip g 0 100)" using rc(1) lm by simp
    have "length (m ! r) = length (clip g 0 100 ! r)"
      using sh(2) rc(1) r' by (metis nth_map)
    then have c': "c < length (clip g 0 100 ! r)" using rc(2) by simp
    have "length (masked ! r) = length (clip g 0 100 ! r)"
      using sh(1) r' lm by (metis nth_map)
    then have "out ! r ! c = map_option py_round1 (masked ! r ! c)"
      using out grid_list_nth[of r masked c] r' c' lm by simp
    then show ?thesis using assign_nth[OF as r' c'] by simp
  qed
  have 1: "map length out = map length m"
    using out sh by (simp add: grid_list_shape)
  have 2: "\<forall>r c. r < length m \<longrightarrow> c < length (m ! r) \<longrightarrow> \<not> m ! r ! c \<longrightarrow> out ! r ! c = None"
    using cell by simp
  have 3: "\<forall>row \<in> set (clip g 0 100). \<forall>v. Some v \<in> set row \<longrightarrow> 0 \<le> v \<and> v \<le> 100"
    using clip_cell by blast
  have 4: "\<forall>r c. r < length m \<longrightarrow> c < length (m ! r) \<longrightarrow>
              out ! r ! c
                = (if m ! r ! c then map_option py_round1 (clip g 0 100 ! r ! c) else None)"
    using cell by blast
  from 3 4 have "\<exists>a. (\<forall>row \<in> set a. \<forall>v. Some v \<in> set row \<longrightarrow> 0 \<le> v \<and> v \<le> 100)
              \<and> (\<forall>r c. r < length m \<longrightarrow> c < length (m ! r) \<longrightarrow>
                     out ! r ! c
                       = (if m ! r ! c then map_option py_round1 (a ! r ! c) else None))"
    by (rule_tac x = "clip g 0 100" in exI) (rule conjI)
  with 1 2 show ?thesis by (intro conjI)
qed


theorem interpolate_humidity_masked_witness:
  "interpolate_humidity no_strings G_linear_only Missing (Some mask_small) stations_four
       geo_small
     = (Inr (Some [[None, None, Some 100], [None, Some 59, None]],
             StatsDict \<lparr> stat_min = Some 59, stat_max = Some 59, stat_avg = Some (159 / 2),
                         valid_points = 2, station_count = 4 \<rparr>), Some mask_small)
   \<and> fst (get_land_mask Missing (Some mask_small)) = Some mask_small
   \<and> \<not> mask_small ! 0 ! 1
   \<and> [[None, None, Some (100 :: real)], [None, Some 59, None]] ! 0 ! 1 = None"
proof -
  have m: "fst (get_land_mask Missing (Some mask_small)) = Some mask_small"
    by (simp add: get_land_mask_def Let_def)
  have r: "0 < length mask_small" and c: "1 < length (mask_small ! 0)"
    and off: "\<not> mask_small ! 0 ! 1"
    by (simp_all add: mask_small_def)
  from interpolate_humidity_masked[OF run_masked m, THEN conjunct2, THEN conjunct1,
         rule_format, OF r c off]
  show ?thesis using run_masked[of Missing] m off by (intro conjI)
qed

section \<open>A mask of the wrong shape\<close>

text \<open>
  Claim C8. When \<open>get_land_mask\<close> supplies a mask whose shape is not
  \<open>(grid_rows, grid_cols)\<close>, \<open>interpolate_humidity\<close> never returns a grid. With four or
  more valid stations, so that the mask step can be reached, it raises; and when the
  steps before the mask succeed, what it raises is the IndexError of the boolean index
  (the TypeError of \<open>~\<close> for a mask without elements).
\<close>

theorem interpolate_humidity_mask_mismatch:
  assumes mask: "fst (get_land_mask tf L) = Some m"
    and differs: "\<not> (length m = nat (grid_rows geo) \<and> (\<forall>row \<in> set m. length row = nat (grid_cols geo)))"
  shows "(\<forall>out sd L'. interpolate_humidity sf G tf L stations geo \<noteq> (Inr (Some out, sd), L'))
       \<and> (4 \<le> length (filter valid_station stations) \<longrightarrow>
            (\<exists>e. fst (interpolate_humidity sf G tf L stations geo) = Inl e))
       \<and> (4 \<le> length (filter valid_station stations)
            \<and> collect (map (point_of sf) (filter valid_station stations)) = Inr points
            \<and> collect (map (\<lambda>s. field sf s ''humidity'') (filter valid_station stations)) = Inr vals
            \<and> 0 \<le> grid_rows geo \<and> 0 \<le> grid_cols geo
            \<and> ((\<exists>f. G Cubic points vals = Inr f) \<or> (\<exists>f. G Linear points vals = Inr f))
            \<longrightarrow> interpolate_humidity sf G tf L stations geo
                  = (Inl (if concat m = [] then TypeError else IndexError), Some m))"
proof -
  have no_grid: "interpolate_humidity sf G tf L stations geo \<noteq> (Inr (Some out, sd), L')"
    for out sd L'
  proof
    assume ret: "interpolate_humidity sf G tf L stations geo = (Inr (Some out, sd), L')"
    from interpolate_humidity_returns[OF ret]
    obtain lon lat points vals g masked where t: "target_samples geo = Inr (lon, lat)"
      and i: "interpolate_with_fallback G points vals (meshgrid lon lat) = Inr g"
      and am: "apply_land_mask tf L (clip g 0 100) = (Inr masked, L')"
      by auto
    have as: "assign_nan_where_not (clip g 0 100) m = Inr masked"
      using apply_land_mask_cases[OF am] mask by auto
    have "map length m = map length (clip g 0 100)"
      using assign_shape[OF as] by simp
    also have "\<dots> = replicate (length lat) (length lon)"
      using fallback_shape[OF i] by (simp add: clip_shape)
    also have "\<dots> = replicate (nat (grid_rows geo)) (nat (grid_cols geo))"
      using target_samples_length[OF t] by simp
    finally have eq: "map length m = replicate (nat (grid_rows geo)) (nat (grid_cols geo))" .
    then have "length m = nat (grid_rows geo)" by (metis length_map length_replicate)
    moreover have "\<forall>row \<in> set m. length row = nat (grid_cols geo)"
    proof
      fix row assume "row \<in> set m"
      then have "length row \<in> set (map length m)" by simp
      then show "length row = nat (grid_cols geo)" using eq by simp
    qed
    ultimately show False using differs by simp
  qed
  have raises: "\<exists>e. fst (interpolate_humidity sf G tf L stations geo) = Inl e"
    if n: "4 \<le> length (filter valid_station stations)"
  proof (cases "fst (interpolate_humidity sf G tf L stations geo)")
    case (Inl e)
    then show ?thesis by blast
  next
    case (Inr p)
    obtain res sd where p: "p = (res, sd)" by (cases p)
    have ret: "interpolate_humidity sf G tf L stations geo
        = (Inr (res, sd), snd (interpolate_humidity sf G tf L stations geo))"
      using Inr p by (metis prod.collapse)
    from interpolate_humidity_returns[OF ret] n obtain out where "res = Some out"
      by auto
    with ret no_grid show ?thesis by blast
  qed
  have exact: "interpolate_humidity sf G tf L stations geo
                  = (Inl (if concat m = [] then TypeError else IndexError), Some m)"
    if n: "4 \<le> length (filter valid_station stations)"
      and p: "collect (map (point_of sf) (filter valid_station stations)) = Inr points"
      and v: "collect (map (\<lambda>s. field sf s ''humidity'') (filter valid_station stations)) = Inr vals"
      and r: "0 \<le> grid_rows geo" "0 \<le> grid_cols geo"
      and i: "(\<exists>f. G Cubic points vals = Inr f) \<or> (\<exists>f. G Linear points vals = Inr f)"
  proof -
    obtain lon lat where t: "target_samples geo = Inr (lon, lat)"
      using target_samples_Inr[OF r] by blast
    have "\<exists>g. interpolate_with_fallback G points vals (meshgrid lon lat) = Inr g"
      using i by (cases "G Cubic points vals") (auto simp: fallback_cases)
    then obtain g where g: "interpolate_with_fallback G points vals (meshgrid lon lat) = Inr g"
      by blast
    have gs: "map length (clip g 0 100) = replicate (nat (grid_rows geo)) (nat (grid_cols geo))"
      using fallback_shape[OF g] target_samples_length[OF t] by (simp add: clip_shape)
    have ne: "map length m \<noteq> map length (clip g 0 100)"
    proof
      assume "map length m = map length (clip g 0 100)"
      then have eq: "map length m = replicate (nat (grid_rows geo)) (nat (grid_cols geo))"
        using gs by simp
      then have "length m = nat (grid_rows geo)" by (metis length_map length_replicate)
      moreover have "\<forall>row \<in> set m. length row = nat (grid_cols geo)"
      proof
        fix row assume "row \<in> set m"
        then have "length row \<in> set (map length m)" by simp
        then show "length row = nat (grid_cols geo)" using eq by simp
      qed
      ultimately show False using differs by simp
    qed
    have gl: "get_land_mask tf L = (Some m, Some m)"
      using mask by (simp add: get_land_mask_def Let_def)
    have "apply_land_mask tf L (clip g 0 100)
            = (Inl (if concat m = [] then TypeError else IndexError), Some m)"
      using ne by (simp add: apply_land_mask_def gl assign_nan_where_not_def)
    then show ?thesis
      using n p v t g by (simp add: interpolate_humidity_def Let_def)
  qed
  show ?thesis using no_grid raises exact by blast
qed


theorem interpolate_humidity_mask_mismatch_witness:
  "fst (get_land_mask Missing (Some mask_narrow)) = Some mask_narrow
   \<and> \<not> (length mask_narrow = nat (grid_rows geo_small)
          \<and> (\<forall>row \<in> set mask_narrow. length row = nat (grid_cols geo_small)))
   \<and> interpolate_humidity no_strings G_linear_only Missing (Some mask_narrow) stations_four
         geo_small
       = (Inl IndexError, Some mask_narrow)"
proof -
  have m: "fst (get_land_mask Missing (Some mask_narrow)) = Some mask_narrow"
    by (simp add: get_land_mask_def Let_def)
  have d: "\<not> (length mask_narrow = nat (grid_rows geo_small)
          \<and> (\<forall>row \<in> set mask_narrow. length row = nat (grid_cols geo_small)))"
    by (simp add: mask_narrow_def geo_small_def)
  have n: "4 \<le> length (filter valid_station stations_four)"
    by (simp add: four_valid)
  have geo: "0 \<le> grid_rows geo_small" "0 \<le> grid_cols geo_small"
    by (simp_all add: geo_small_def)
  have g: "(\<exists>f. G_linear_only Cubic [(0, 0), (2, 0), (0, 1), (2, 1)] [10, 20, 30, 40] = Inr f)
         \<or> (\<exists>f. G_linear_only Linear [(0, 0), (2, 0), (0, 1), (2, 1)] [10, 20, 30, 40] = Inr f)"
    by (simp add: G_linear_only_def)
  have c: "concat mask_narrow \<noteq> []"
    by (simp add: mask_narrow_def)
  have "interpolate_humidity no_strings G_linear_only Missing (Some mask_narrow) stations_four
          geo_small
        = (Inl (if concat mask_narrow = [] then TypeError else IndexError), Some mask_narrow)"
    by (rule interpolate_humidity_mask_mismatch
               [OF m d, where sf = no_strings and G = G_linear_only
                  and stations = stations_four
                  and points = "[(0, 0), (2, 0), (0, 1), (2, 1)]" and vals = "[10, 20, 30, 40]",
                THEN conjunct2, THEN conjunct2, THEN mp])
       (intro conjI n four_points four_values geo g)
  then have "interpolate_humidity no_strings G_linear_only Missing (Some mask_narrow)
          stations_four geo_small = (Inl IndexError, Some mask_narrow)"
    using c by simp
  with m d show ?thesis by (intro conjI)
qed

section \<open>The statistics\<close>

lemma set_map_filter_id: "v \<in> set (List.map_filter (\<lambda>x. x) xs) \<longleftrightarrow> Some v \<in> set xs"
  by (induction xs) (auto simp: List.map_filter_def)

lemma valid_grid_mem: "v \<in> set (valid_grid a) \<longleftrightarrow> (\<exists>row \<in> set a. Some v \<in> set row)"
  by (auto simp: valid_grid_def set_map_filter_id)

lemma length_map_filter_id:
  "length (List.map_filter (\<lambda>x. x) xs) = length (filter (\<lambda>c. c \<noteq> None) xs)"
  by (induction xs) (auto simp: List.map_filter_def)

lemma length_filter_map_option:
  "length (filter (\<lambda>c. c \<noteq> None) (map (map_option f) xs))
     = length (filter (\<lambda>c. c \<noteq> None) xs)"
  by (induction xs) auto

lemma valid_points_of_output:
  "length (valid_grid a) = length (filter (\<lambda>c. c \<noteq> None) (concat (grid_list a)))"
proof -
  have "concat (grid_list a) = map (map_option py_round1) (concat a)"
    by (simp add: grid_list_def map_concat)
  then show ?thesis
    by (simp only: valid_grid_def length_map_filter_id length_filter_map_option)
qed

lemma inner_values_band:
  assumes "\<forall>v \<in> set vs. 0 \<le> v \<and> v \<le> 100"
  shows "inner_values vs = filter (\<lambda>v. \<not> (\<bar>v - 0\<bar> \<le> 1 / 10 \<or> \<bar>v - 100\<bar> \<le> 1 / 10)) vs"
  unfolding inner_values_def
proof (rule filter_cong[OF refl])
  fix v assume "v \<in> set vs"
  then have "0 \<le> v" "v \<le> 100" using assms by auto
  then show "(1 / 10 < v \<and> v < 999 / 10) = (\<not> (\<bar>v - 0\<bar> \<le> 1 / 10 \<or> \<bar>v - 100\<bar> \<le> 1 / 10))"
    by auto
qed

text \<open>
  Claim C5. For every grid that \<open>interpolate_humidity\<close> returns, the statistics are
  taken on the clipped and masked grid \<open>a\<close> of which the returned grid is the rounding.
  Its valid cells are the numbers of \<open>a\<close>. \<open>min\<close> and \<open>max\<close> are the rounded extremes of
  the inner values, the valid cells that are not within 0.1 of the bounds 0 and 100, and
  are absent when there is no inner value. \<open>avg\<close> is the rounded mean of all valid cells
  and is absent only when there is none, and \<open>valid_points\<close> counts all valid cells,
  which are as many as the numeric cells of the returned grid.
\<close>

theorem interpolate_humidity_stats:
  assumes ret: "interpolate_humidity sf G tf L stations geo = (Inr (Some out, sd), L')"
  shows "\<exists>a s. sd = StatsDict s \<and> out = grid_list a
      \<and> (let valid = valid_grid a;
              inner = filter (\<lambda>v. \<not> (\<bar>v - 0\<bar> \<le> 1 / 10 \<or> \<bar>v - 100\<bar> \<le> 1 / 10)) valid
          in (\<forall>v. v \<in> set valid \<longleftrightarrow> (\<exists>row \<in> set a. Some v \<in> set row))
           \<and> stat_min s = (if inner = [] then None else Some (py_round1 (Min (set inner))))
           \<and> stat_max s = (if inner = [] then None else Some (py_round1 (Max (set inner))))
           \<and> stat_avg s = (if valid = [] then None
                            else Some (py_round1 (sum_list valid / real (length valid))))
           \<and> valid_points s = length valid
           \<and> valid_points s = length (filter (\<lambda>c. c \<noteq> None) (concat out)))"
proof -
  from interpolate_humidity_returns[OF ret]
  obtain g masked where am: "apply_land_mask tf L (clip g 0 100) = (Inr masked, L')"
    and out: "out = grid_list masked"
    and sd: "sd = StatsDict (compute_stats masked (length (filter valid_station stations)))"
    by auto
  have range: "\<forall>v \<in> set (valid_grid masked). 0 \<le> v \<and> v \<le> 100"
  proof
    fix v assume "v \<in> set (valid_grid masked)"
    then obtain row where row: "row \<in> set masked" "Some v \<in> set row"
      using valid_grid_mem by blast
    from apply_land_mask_cell[OF am row]
    obtain row' where "row' \<in> set (clip g 0 100)" "Some v \<in> set row'"
      by blast
    then show "0 \<le> v \<and> v \<le> 100" by (rule clip_cell)
  qed
  have band: "inner_values (valid_grid masked)
      = filter (\<lambda>v. \<not> (\<bar>v - 0\<bar> \<le> 1 / 10 \<or> \<bar>v - 100\<bar> \<le> 1 / 10)) (valid_grid masked)"
    using inner_values_band[OF range] .
  let ?s = "compute_stats masked (length (filter valid_station stations))"
  have "stat_min ?s = (if inner_values (valid_grid masked) = [] then None
                       else Some (py_round1 (Min (set (inner_values (valid_grid masked))))))"
    "stat_max ?s = (if inner_values (valid_grid masked) = [] then None
                       else Some (py_round1 (Max (set (inner_values (valid_grid masked))))))"
    "stat_avg ?s = (if valid_grid masked = [] then None
                     else Some (py_round1 (sum_list (valid_grid masked)
                                             / real (length (valid_grid masked)))))"
    "valid_points ?s = length (valid_grid masked)"
    by (simp_all add: compute_stats_def Let_def)
  then have "(let valid = valid_grid masked;
              inner = filter (\<lambda>v. \<not> (\<bar>v - 0\<bar> \<le> 1 / 10 \<or> \<bar>v - 100\<bar> \<le> 1 / 10)) valid
          in (\<forall>v. v \<in> set valid \<longleftrightarrow> (\<exists>row \<in> set masked. Some v \<in> set row))
           \<and> stat_min ?s = (if inner = [] then None else Some (py_round1 (Min (set inner))))
           \<and> stat_max ?s = (if inner = [] then None else Some (py_round1 (Max (set inner))))
           \<and> stat_avg ?s = (if valid = [] then None
                            else Some (py_round1 (sum_list valid / real (length valid))))
           \<and> valid_points ?s = length valid
           \<and> valid_points ?s = length (filter (\<lambda>c. c \<noteq> None) (concat out)))"
    unfolding Let_def band[symmetric] out valid_points_of_output[symmetric]
    using valid_grid_mem by simp
  then show ?thesis using sd out by blast
qed

theorem interpolate_humidity_stats_witness:
  "interpolate_humidity no_strings G_linear_only Missing None stations_four geo_small
     = (Inr (Some [[None, Some 60, Some 100], [None, Some 59, Some 100]],
             StatsDict \<lparr> stat_min = Some 59, stat_max = Some 60, stat_avg = Some (798 / 10),
                         valid_points = 4, station_count = 4 \<rparr>), None)
   \<and> (\<exists>a s. StatsDict \<lparr> stat_min = Some 59, stat_max = Some 60, stat_avg = Some (798 / 10),
                         valid_points = 4, station_count = 4 \<rparr> = StatsDict s
      \<and> [[None, Some 60, Some 100], [None, Some 59, Some 100]] = grid_list a
      \<and> (let valid = valid_grid a;
              inner = filter (\<lambda>v. \<not> (\<bar>v - 0\<bar> \<le> 1 / 10 \<or> \<bar>v - 100\<bar> \<le> 1 / 10)) valid
          in (\<forall>v. v \<in> set valid \<longleftrightarrow> (\<exists>row \<in> set a. Some v \<in> set row))
           \<and> stat_min s = (if inner = [] then None else Some (py_round1 (Min (set inner))))
           \<and> stat_max s = (if inner = [] then None else Some (py_round1 (Max (set inner))))
           \<and> stat_avg s = (if valid = [] then None
                            else Some (py_round1 (sum_list valid / real (length valid))))
           \<and> valid_points s = length valid
           \<and> valid_points s = length (filter (\<lambda>c. c \<noteq> None)
                 (concat [[None, Some 60, Some (100 :: real)], [None, Some 59, Some 100]]))))"
  using interpolate_humidity_stats[OF run_unmasked] run_unmasked by (intro conjI)

section \<open>The fallback to linear interpolation\<close>

lemma clip_nth:
  "r < length g \<Longrightarrow> c < length (g ! r) \<Longrightarrow>
     clip g lo hi ! r ! c = map_option (\<lambda>v. min (max v lo) hi) (g ! r ! c)"
  by (simp add: clip_def)

lemma apply_land_mask_nth:
  assumes "apply_land_mask tf L a = (Inr b, L')" "r < length a" "c < length (a ! r)"
  shows "b ! r ! c
     = (if (case fst (get_land_mask tf L) of None \<Rightarrow> True | Some m \<Rightarrow> m ! r ! c)
        then a ! r ! c else None)"
proof -
  from apply_land_mask_cases[OF assms(1)] show ?thesis
  proof
    assume "fst (get_land_mask tf L) = None \<and> b = a"
    then show ?thesis by simp
  next
    assume "\<exists>m. fst (get_land_mask tf L) = Some m \<and> assign_nan_where_not a m = Inr b"
    then obtain m where m: "fst (get_land_mask tf L) = Some m"
      and as: "assign_nan_where_not a m = Inr b"
      by blast
    show ?thesis using assign_nth[OF as assms(2,3)] m by simp
  qed
qed

lemma apply_land_mask_global:
  "apply_land_mask tf L a = (x, L') \<Longrightarrow> L' = snd (get_land_mask tf L)"
  by (auto simp: apply_land_mask_def split: prod.splits option.splits)

lemma line_valid:
  "filter valid_station stations_on_a_line = stations_on_a_line"
  by (simp add: stations_on_a_line_def example_station_def valid_station_def present_def)

lemma line_count: "length (filter valid_station stations_on_a_line) = 4"
  by (simp add: line_valid) (simp add: stations_on_a_line_def)

lemma line_points:
  "collect (map (point_of no_strings) (filter valid_station stations_on_a_line))
     = Inr [(0, 0), (1, 0), (2, 0), (3, 0)]"
  by (simp add: line_valid) (simp add: stations_on_a_line_def example_station_def point_of_def field_def)

lemma line_values:
  "collect (map (\<lambda>s. field no_strings s ''humidity'') (filter valid_station stations_on_a_line))
     = Inr [10, 20, 30, 40]"
  by (simp add: line_valid) (simp add: stations_on_a_line_def example_station_def field_def)

lemma line_collinear: "collinear [(0, 0), (1, 0), (2, 0), (3, 0)]"
  by (simp add: collinear_def)

lemma line_cubic:
  "qhull_griddata F Cubic [(0, 0), (1, 0), (2, 0), (3, 0)] vals = Inl QhullError"
  by (simp add: qhull_griddata_def line_collinear)

lemma line_linear:
  "qhull_griddata F Linear [(0, 0), (1, 0), (2, 0), (3, 0)] vals = Inl QhullError"
  by (simp add: qhull_griddata_def line_collinear)

text \<open>
  On collinear stations the fallback does not help. Both interpolations fail in the
  triangulation, so the linear retry raises as the cubic one did and the call raises
  QhullError instead of returning a grid.
\<close>

theorem interpolate_humidity_collinear_raises:
  "length (filter valid_station stations_on_a_line) = 4
   \<and> qhull_griddata G_linear_only Cubic [(0, 0), (1, 0), (2, 0), (3, 0)] [10, 20, 30, 40]
       = Inl QhullError
   \<and> interpolate_humidity no_strings (qhull_griddata G_linear_only) Missing None
         stations_on_a_line geo_small
       = (Inl QhullError, None)"
proof -
  have n: "\<not> length (filter valid_station stations_on_a_line) < 4"
    by (simp add: line_count)
  have f: "interpolate_with_fallback (qhull_griddata G_linear_only)
             [(0, 0), (1, 0), (2, 0), (3, 0)] [10, 20, 30, 40] (meshgrid [0, 1, 2] [0, 1])
        = Inl QhullError"
    by (simp add: fallback_cases line_cubic line_linear)
  have "interpolate_humidity no_strings (qhull_griddata G_linear_only) Missing None
         stations_on_a_line geo_small
       = (Inl QhullError, None)"
    using n line_points line_values small_samples f
    by (simp add: interpolate_humidity_def Let_def)
  then show ?thesis using line_count line_cubic by (intro conjI)
qed

text \<open>
  Claim C4, as amended. Take a call with four or more valid stations whose conversions and
  grid sampling succeed, and let the cubic interpolation raise. Then the linear
  interpolation is tried in the same call on the same points and values, and its outcome
  is the call's. If it succeeds, and the mask is absent or fits, the call returns a grid
  of full shape whose cells are the clipped, masked and rounded values of the linear
  interpolant at \<open>(lon[c], lat[r])\<close>. If it raises as well, that exception leaves the
  call; this is what happens on collinear stations, where both methods fail in the
  triangulation, as in the call above. The claim as stated, that a grid is still returned
  when the cubic interpolation fails on collinear points, does not hold.
\<close>

theorem interpolate_humidity_falls_back:
  assumes n: "4 \<le> length (filter valid_station stations)"
    and p: "collect (map (point_of sf) (filter valid_station stations)) = Inr points"
    and v: "collect (map (\<lambda>s. field sf s ''humidity'') (filter valid_station stations)) = Inr vals"
    and t: "target_samples geo = Inr (lon, lat)"
    and cubic: "G Cubic points vals = Inl e"
  shows "(\<forall>e'. G Linear points vals = Inl e' \<longrightarrow>
            interpolate_humidity sf G tf L stations geo = (Inl e', L))
       \<and> (\<forall>f. G Linear points vals = Inr f
              \<and> (fst (get_land_mask tf L) = None \<or>
                   (\<exists>m. fst (get_land_mask tf L) = Some m \<and> concat m \<noteq> []
                       \<and> map length m = replicate (length lat) (length lon)))
            \<longrightarrow> (\<exists>out s. interpolate_humidity sf G tf L stations geo
                            = (Inr (Some out, StatsDict s), snd (get_land_mask tf L))
                  \<and> map length out = replicate (length lat) (length lon)
                  \<and> (\<forall>r c. r < length lat \<longrightarrow> c < length lon \<longrightarrow>
                        out ! r ! c
                          = (if (case fst (get_land_mask tf L) of
                                   None \<Rightarrow> True | Some m \<Rightarrow> m ! r ! c)
                             then map_option (\<lambda>v. py_round1 (min (max v 0) 100))
                                    (f (lon ! c, lat ! r))
                             else None))))
       \<and> (\<forall>F. G = qhull_griddata F \<and> collinear points \<longrightarrow>
             interpolate_humidity sf G tf L stations geo = (Inl QhullError, L))"
proof (intro conjI allI impI)
  fix e' assume "G Linear points vals = Inl e'"
  then have "interpolate_with_fallback G points vals (meshgrid lon lat) = Inl e'"
    using cubic by (simp add: fallback_cases)
  then show "interpolate_humidity sf G tf L stations geo = (Inl e', L)"
    using n p v t by (simp add: interpolate_humidity_def Let_def)
next
  fix f
  assume h: "G Linear points vals = Inr f
              \<and> (fst (get_land_mask tf L) = None \<or>
                   (\<exists>m. fst (get_land_mask tf L) = Some m \<and> concat m \<noteq> []
                       \<and> map length m = replicate (length lat) (length lon)))"
  let ?g = "map (\<lambda>y. map (\<lambda>x. f (x, y)) lon) lat"
  have g: "interpolate_with_fallback G points vals (meshgrid lon lat) = Inr ?g"
    using cubic h by (simp add: fallback_cases)
  have gs: "map length (clip ?g 0 100) = replicate (length lat) (length lon)"
    using fallback_shape[OF g] by (simp add: clip_shape)
  obtain masked where am:
    "apply_land_mask tf L (clip ?g 0 100) = (Inr masked, snd (get_land_mask tf L))"
    using apply_land_mask_fits[OF gs] h by blast
  have ms: "map length masked = replicate (length lat) (length lon)"
    using apply_land_mask_shape[OF am] gs by simp
  have ret: "interpolate_humidity sf G tf L stations geo
      = (Inr (Some (grid_list masked),
              StatsDict (compute_stats masked (length (filter valid_station stations)))),
         snd (get_land_mask tf L))"
    using interpolate_humidity_proceeds[OF n p v t g am] .
  have shape: "map length (grid_list masked) = replicate (length lat) (length lon)"
    using ms by (simp add: grid_list_shape)
  have cell: "grid_list masked ! r ! c
        = (if (case fst (get_land_mask tf L) of None \<Rightarrow> True | Some m \<Rightarrow> m ! r ! c)
           then map_option (\<lambda>v. py_round1 (min (max v 0) 100)) (f (lon ! c, lat ! r))
           else None)"
    if rc: "r < length lat" "c < length lon" for r c
  proof -
    have r1: "r < length ?g" "c < length (?g ! r)" using rc by simp_all
    have r2: "r < length (clip ?g 0 100)" "c < length (clip ?g 0 100 ! r)"
      using rc by (simp_all add: clip_def)
    have lm: "length masked = length lat"
      using ms by (metis length_map length_replicate)
    have "length (masked ! r) = length lon"
      using ms rc(1) lm by (metis nth_map nth_replicate)
    then have r3: "r < length masked" "c < length (masked ! r)"
      using rc lm by simp_all
    have "clip ?g 0 100 ! r ! c = map_option (\<lambda>v. min (max v 0) 100) (f (lon ! c, lat ! r))"
      using clip_nth[OF r1] rc by simp
    then have "masked ! r ! c
        = (if (case fst (get_land_mask tf L) of None \<Rightarrow> True | Some m \<Rightarrow> m ! r ! c)
           then map_option (\<lambda>v. min (max v 0) 100) (f (lon ! c, lat ! r)) else None)"
      using apply_land_mask_nth[OF am r2] by simp
    then show ?thesis
      using grid_list_nth[OF r3] by (simp add: option.map_comp comp_def)
  qed
  show "\<exists>out s. interpolate_humidity sf G tf L stations geo
                            = (Inr (Some out, StatsDict s), snd (get_land_mask tf L))
                  \<and> map length out = replicate (length lat) (length lon)
                  \<and> (\<forall>r c. r < length lat \<longrightarrow> c < length lon \<longrightarrow>
                        out ! r ! c
                          = (if (case fst (get_land_mask tf L) of
                                   None \<Rightarrow> True | Some m \<Rightarrow> m ! r ! c)
                             then map_option (\<lambda>v. py_round1 (min (max v 0) 100))
                                    (f (lon ! c, lat ! r))
                             else None))"
    using ret shape cell by blast
next
  fix F assume "G = qhull_griddata F \<and> collinear points"
  then have "interpolate_with_fallback G points vals (meshgrid lon lat) = Inl QhullError"
    by (simp add: fallback_cases qhull_griddata_def)
  then show "interpolate_humidity sf G tf L stations geo = (Inl QhullError, L)"
    using n p v t by (simp add: interpolate_humidity_def Let_def)
qed


theorem interpolate_humidity_falls_back_witness:
  "4 \<le> length (filter valid_station stations_four)
   \<and> G_linear_only Cubic [(0, 0), (2, 0), (0, 1), (2, 1)] [10, 20, 30, 40] = Inl QhullError
   \<and> (\<exists>out s. interpolate_humidity no_strings G_linear_only Missing None stations_four geo_small
                   = (Inr (Some out, StatsDict s), None)
            \<and> map length out = [3, 3]
            \<and> out ! 1 ! 2 = Some 100 \<and> out ! 1 ! 1 = Some 59 \<and> out ! 1 ! 0 = None)
   \<and> 4 \<le> length (filter valid_station stations_on_a_line)
   \<and> qhull_griddata G_linear_only Cubic [(0, 0), (1, 0), (2, 0), (3, 0)] [10, 20, 30, 40]
       = Inl QhullError
   \<and> qhull_griddata G_linear_only Linear [(0, 0), (1, 0), (2, 0), (3, 0)] [10, 20, 30, 40]
       = Inl QhullError
   \<and> interpolate_humidity no_strings (qhull_griddata G_linear_only) Missing None
         stations_on_a_line geo_small
       = (Inl QhullError, None)"
proof -
  have n: "4 \<le> length (filter valid_station stations_four)"
    by (simp add: four_valid)
  have cubic: "G_linear_only Cubic [(0, 0), (2, 0), (0, 1), (2, 1)] [10, 20, 30, 40]
      = Inl QhullError"
    by (simp add: G_linear_only_def)
  have lin: "G_linear_only Linear [(0, 0), (2, 0), (0, 1), (2, 1)] [10, 20, 30, 40]
      = Inr (\<lambda>p. if fst p < 1 then None else Some (fst p * 60 - snd p))"
    by (simp add: G_linear_only_def)
  have m: "get_land_mask Missing None = (None, None)"
    by (simp add: get_land_mask_def load_land_mask_def)
  have h: "G_linear_only Linear [(0, 0), (2, 0), (0, 1), (2, 1)] [10, 20, 30, 40]
             = Inr (\<lambda>p. if fst p < 1 then None else Some (fst p * 60 - snd p))
        \<and> (fst (get_land_mask Missing None) = None \<or>
             (\<exists>m. fst (get_land_mask Missing None) = Some m \<and> concat m \<noteq> []
                 \<and> map length m = replicate (length [0, 1 :: real]) (length [0, 1, 2 :: real])))"
    by (rule conjI[OF lin], rule disjI1, simp add: m)
  from interpolate_humidity_falls_back
         [where stations = stations_four and sf = no_strings and G = G_linear_only
            and geo = geo_small and points = "[(0, 0), (2, 0), (0, 1), (2, 1)]"
            and vals = "[10, 20, 30, 40]" and lon = "[0, 1, 2]" and lat = "[0, 1]"
            and e = QhullError and tf = Missing and L = None,
          OF n four_points four_values small_samples cubic,
          THEN conjunct2, THEN conjunct1, rule_format, OF h]
  obtain out s where r: "interpolate_humidity no_strings G_linear_only Missing None
        stations_four geo_small = (Inr (Some out, StatsDict s), snd (get_land_mask Missing None))"
    and sh: "map length out = replicate (length [0, 1 :: real]) (length [0, 1, 2 :: real])"
    and cell: "\<forall>r c. r < length [0, 1 :: real] \<longrightarrow> c < length [0, 1, 2 :: real] \<longrightarrow>
        out ! r ! c
          = (if (case fst (get_land_mask Missing None) of None \<Rightarrow> True | Some m \<Rightarrow> m ! r ! c)
             then map_option (\<lambda>v. py_round1 (min (max v 0) 100))
                    (if fst ([0, 1, 2 :: real] ! c, [0, 1 :: real] ! r) < 1 then None
                     else Some (fst ([0, 1, 2 :: real] ! c, [0, 1 :: real] ! r) * 60
                                - snd ([0, 1, 2 :: real] ! c, [0, 1 :: real] ! r)))
             else None)"
    by (elim exE conjE) (rule that)
  have r': "interpolate_humidity no_strings G_linear_only Missing None stations_four geo_small
      = (Inr (Some out, StatsDict s), None)"
    using r m by simp
  have sh': "map length out = [3, 3]"
    using sh by (simp add: numeral_2_eq_2)
  have c2: "out ! 1 ! 2 = Some 100"
    using cell[rule_format, of 1 2] m by (simp add: py_round1_examples)
  have c1: "out ! 1 ! 1 = Some 59"
    using cell[rule_format, of 1 1] m by (simp add: py_round1_examples)
  have c0: "out ! 1 ! 0 = None"
    using cell[rule_format, of 1 0] m by simp
  have "\<exists>out s. interpolate_humidity no_strings G_linear_only Missing None stations_four
                   geo_small = (Inr (Some out, StatsDict s), None)
            \<and> map length out = [3, 3]
            \<and> out ! 1 ! 2 = Some 100 \<and> out ! 1 ! 1 = Some 59 \<and> out ! 1 ! 0 = None"
    using r' sh' c2 c1 c0 by (intro exI conjI)
  note grid = this
  have n': "4 \<le> length (filter valid_station stations_on_a_line)"
    by (simp add: line_count)
  have raises: "interpolate_humidity no_strings (qhull_griddata G_linear_only) Missing None
         stations_on_a_line geo_small
       = (Inl QhullError, None)"
    by (rule interpolate_humidity_falls_back
               [where stations = stations_on_a_line and sf = no_strings
                  and G = "qhull_griddata G_linear_only" and geo = geo_small
                  and points = "[(0, 0), (1, 0), (2, 0), (3, 0)]"
                  and vals = "[10, 20, 30, 40]" and lon = "[0, 1, 2]" and lat = "[0, 1]"
                  and e = QhullError and tf = Missing and L = None,
                OF n' line_points line_values small_samples line_cubic,
                THEN conjunct1, rule_format, OF line_linear])
  show ?thesis
    using n cubic grid n' line_cubic[of G_linear_only "[10, 20, 30, 40]"]
      line_linear[of G_linear_only "[10, 20, 30, 40]"] raises
    by (intro conjI)
qed

section \<open>The geometry of the target grid\<close>

lemma linspace_samples:
  assumes "2 \<le> num"
  shows "\<exists>ys. linspace a b num = Inr ys \<and> length ys = nat num
           \<and> (\<forall>i < nat num. ys ! i = a + real i * ((b - a) / real (nat num - 1)))
           \<and> ys ! 0 = a \<and> ys ! (nat num - 1) = b"
proof -
  let ?n = "nat num"
  let ?step = "(b - a) / real (?n - 1)"
  let ?y = "map (\<lambda>i. a + real i * ?step) [0..<?n]"
  have n: "2 \<le> ?n" using assms by simp
  have l: "linspace a b num = Inr (?y[?n - 1 := b])"
    using assms n by (simp add: linspace_def Let_def)
  have len: "length (?y[?n - 1 := b]) = ?n" by simp
  have last: "a + real (?n - 1) * ?step = b"
    using n by simp
  have nth: "?y[?n - 1 := b] ! i = a + real i * ?step" if "i < ?n" for i
  proof (cases "i = ?n - 1")
    case True
    then show ?thesis using that last by simp
  next
    case False
    then show ?thesis using that by simp
  qed
  have first: "?y[?n - 1 := b] ! 0 = a"
    using nth[of 0] n by simp
  have final: "?y[?n - 1 := b] ! (?n - 1) = b"
    using n by simp
  show ?thesis using l len nth first final by blast
qed

lemma step_diff: "(a + real (Suc c) * s) - (a + real c * s) = (s :: real)"
  by (simp add: algebra_simps)

text \<open>
  Claim C6. For a grid configuration with at least two rows and two columns, the target
  grid of \<open>interpolate_humidity\<close> has exactly \<open>grid_cols\<close> longitude samples and
  \<open>grid_rows\<close> latitude samples. The first sample of each is the lower bound and the
  last one the upper bound, exactly, and consecutive samples are one
  \<open>(N - 1)\<close>-th of the span apart. Cell \<open>(r, c)\<close> of the mesh is \<open>(lon[c], lat[r])\<close>.
\<close>

theorem target_grid_geometry:
  assumes "2 \<le> grid_rows geo" "2 \<le> grid_cols geo"
  shows "\<exists>lon lat. target_samples geo = Inr (lon, lat)
      \<and> length lon = nat (grid_cols geo) \<and> length lat = nat (grid_rows geo)
      \<and> lon ! 0 = bottom_left_lon geo \<and> lon ! (nat (grid_cols geo) - 1) = top_right_lon geo
      \<and> lat ! 0 = bottom_left_lat geo \<and> lat ! (nat (grid_rows geo) - 1) = top_right_lat geo
      \<and> (\<forall>c. Suc c < nat (grid_cols geo) \<longrightarrow>
             lon ! Suc c - lon ! c
               = (top_right_lon geo - bottom_left_lon geo) / real (nat (grid_cols geo) - 1))
      \<and> (\<forall>r. Suc r < nat (grid_rows geo) \<longrightarrow>
             lat ! Suc r - lat ! r
               = (top_right_lat geo - bottom_left_lat geo) / real (nat (grid_rows geo) - 1))
      \<and> meshgrid lon lat = (map (\<lambda>y. lon) lat, map (\<lambda>y. map (\<lambda>x. y) lon) lat)"
proof -
  obtain lon where lon: "linspace (bottom_left_lon geo) (top_right_lon geo) (grid_cols geo) = Inr lon"
    "length lon = nat (grid_cols geo)"
    "\<forall>i < nat (grid_cols geo). lon ! i = bottom_left_lon geo
        + real i * ((top_right_lon geo - bottom_left_lon geo) / real (nat (grid_cols geo) - 1))"
    "lon ! 0 = bottom_left_lon geo" "lon ! (nat (grid_cols geo) - 1) = top_right_lon geo"
    using linspace_samples[OF assms(2)] by blast
  obtain lat where lat: "linspace (bottom_left_lat geo) (top_right_lat geo) (grid_rows geo) = Inr lat"
    "length lat = nat (grid_rows geo)"
    "\<forall>i < nat (grid_rows geo). lat ! i = bottom_left_lat geo
        + real i * ((top_right_lat geo - bottom_left_lat geo) / real (nat (grid_rows geo) - 1))"
    "lat ! 0 = bottom_left_lat geo" "lat ! (nat (grid_rows geo) - 1) = top_right_lat geo"
    using linspace_samples[OF assms(1)] by blast
  have t: "target_samples geo = Inr (lon, lat)"
    using lon(1) lat(1) by (simp add: target_samples_def)
  have dlon: "lon ! Suc c - lon ! c
               = (top_right_lon geo - bottom_left_lon geo) / real (nat (grid_cols geo) - 1)"
    if "Suc c < nat (grid_cols geo)" for c
  proof -
    have "c < nat (grid_cols geo)" using that by simp
    then show ?thesis
      using lon(3)[rule_format, OF that] lon(3)[rule_format, of c]
      by (simp only: step_diff)
  qed
  have dlat: "lat ! Suc r - lat ! r
               = (top_right_lat geo - bottom_left_lat geo) / real (nat (grid_rows geo) - 1)"
    if "Suc r < nat (grid_rows geo)" for r
  proof -
    have "r < nat (grid_rows geo)" using that by simp
    then show ?thesis
      using lat(3)[rule_format, OF that] lat(3)[rule_format, of r]
      by (simp only: step_diff)
  qed
  show ?thesis
    using t lon(2,4,5) lat(2,4,5) dlon dlat by (simp add: meshgrid_def)
qed

theorem target_grid_geometry_witness:
  "\<exists>lon lat. target_samples GEO_INFO = Inr (lon, lat)
      \<and> length lon = 67 \<and> length lat = 120
      \<and> lon ! 0 = 120 \<and> lon ! 66 = 12198 / 100
      \<and> lat ! 0 = 2188 / 100 \<and> lat ! 119 = 2545 / 100
      \<and> lon ! 1 - lon ! 0 = (198 / 100) / 66
      \<and> lat ! 1 - lat ! 0 = (357 / 100) / 119"
proof -
  have r: "2 \<le> grid_rows GEO_INFO" and c: "2 \<le> grid_cols GEO_INFO"
    by (simp_all add: GEO_INFO_def)
  from target_grid_geometry[OF r c]
  obtain lon lat where h: "target_samples GEO_INFO = Inr (lon, lat)"
    "length lon = nat (grid_cols GEO_INFO)" "length lat = nat (grid_rows GEO_INFO)"
    "lon ! 0 = bottom_left_lon GEO_INFO"
    "lon ! (nat (grid_cols GEO_INFO) - 1) = top_right_lon GEO_INFO"
    "lat ! 0 = bottom_left_lat GEO_INFO"
    "lat ! (nat (grid_rows GEO_INFO) - 1) = top_right_lat GEO_INFO"
    "\<forall>c. Suc c < nat (grid_cols GEO_INFO) \<longrightarrow>
             lon ! Suc c - lon ! c
               = (top_right_lon GEO_INFO - bottom_left_lon GEO_INFO)
                   / real (nat (grid_cols GEO_INFO) - 1)"
    "\<forall>r. Suc r < nat (grid_rows GEO_INFO) \<longrightarrow>
             lat ! Suc r - lat ! r
               = (top_right_lat GEO_INFO - bottom_left_lat GEO_INFO)
                   / real (nat (grid_rows GEO_INFO) - 1)"
    by (elim exE conjE) (rule that)
  have 1: "length lon = 67" "length lat = 120" using h(2,3) by (simp_all add: GEO_INFO_def)
  have 2: "lon ! 0 = 120" "lat ! 0 = 2188 / 100" using h(4,6) by (simp_all add: GEO_INFO_def)
  have 3: "lon ! 66 = 12198 / 100" using h(5) by (simp add: GEO_INFO_def)
  have 4: "lat ! 119 = 2545 / 100" using h(7) by (simp add: GEO_INFO_def)
  have 5: "lon ! 1 - lon ! 0 = (198 / 100) / 66"
    using h(8)[rule_format, of 0] by (simp add: GEO_INFO_def)
  have 6: "lat ! 1 - lat ! 0 = (357 / 100) / 119"
    using h(9)[rule_format, of 0] by (simp add: GEO_INFO_def)
  show ?thesis using h(1) 1 2 3 4 5 6 by (intro exI conjI)
qed

section \<open>Loading the land mask\<close>

lemma collect_total:
  "\<forall>x \<in> set xs. f x = Inr (g x) \<Longrightarrow> collect (map f xs) = Inr (map g xs)"
  by (induction xs) simp_all

lemma collect_fails:
  "\<exists>x \<in> set xs. \<exists>e. f x = Inl e \<Longrightarrow> \<exists>e. collect (map f xs) = Inl e"
proof (induction xs)
  case Nil
  then show ?case by simp
next
  case (Cons x xs)
  show ?case
  proof (cases "f x")
    case (Inl e)
    then show ?thesis by simp
  next
    case (Inr y)
    then have "\<exists>x \<in> set xs. \<exists>e. f x = Inl e" using Cons.prems by auto
    then obtain e where "collect (map f xs) = Inl e" using Cons.IH by blast
    then show ?thesis using Inr by simp
  qed
qed

lemma load_land_mask_raises:
  "build_mask j = Inl e \<Longrightarrow> load_land_mask (Decoded j) = None"
  by (simp add: load_land_mask_def)

lemma mask_row_cells:
  assumes "\<forall>v \<in> set cells. v = JNull \<or> (\<exists>x. v = JNum x)"
  shows "mask_row (JArr cells)
           = Inr (map (\<lambda>v. case v of JNum x \<Rightarrow> - 900 < x | _ \<Rightarrow> False) cells)"
proof -
  have "\<forall>v \<in> set cells. usable v = Inr (case v of JNum x \<Rightarrow> - 900 < x | _ \<Rightarrow> False)"
    using assms by auto
  then show ?thesis by (simp add: mask_row_def collect_total)
qed

lemma mask_row_bad_cell:
  assumes "\<exists>v \<in> set cells. (\<exists>s. v = JStr s) \<or> (\<exists>xs. v = JArr xs) \<or> (\<exists>kvs. v = JObj kvs)"
  shows "\<exists>e. mask_row (JArr cells) = Inl e"
proof -
  obtain v where v: "v \<in> set cells"
    and bad: "(\<exists>s. v = JStr s) \<or> (\<exists>xs. v = JArr xs) \<or> (\<exists>kvs. v = JObj kvs)"
    using assms by blast
  have "usable v = Inl TypeError" using bad by auto
  then have "\<exists>v \<in> set cells. \<exists>e. usable v = Inl e" using v by blast
  from collect_fails[OF this] obtain e where "collect (map usable cells) = Inl e"
    by blast
  then show ?thesis by (simp add: mask_row_def)
qed

lemma collect_mask_rows:
  assumes "\<forall>cells \<in> set cellss. \<forall>v \<in> set cells. v = JNull \<or> (\<exists>x. v = JNum x)"
  shows "collect (map mask_row (map JArr cellss))
           = Inr (map (map (\<lambda>v. case v of JNum x \<Rightarrow> - 900 < x | _ \<Rightarrow> False)) cellss)"
  using assms
proof (induction cellss)
  case Nil
  then show ?case by simp
next
  case (Cons cells cellss)
  have "mask_row (JArr cells)
      = Inr (map (\<lambda>v. case v of JNum x \<Rightarrow> - 900 < x | _ \<Rightarrow> False) cells)"
    using Cons.prems by (intro mask_row_cells) simp
  moreover have "collect (map mask_row (map JArr cellss))
      = Inr (map (map (\<lambda>v. case v of JNum x \<Rightarrow> - 900 < x | _ \<Rightarrow> False)) cellss)"
    using Cons.prems by (intro Cons.IH) simp
  ultimately show ?case by simp
qed

lemma collect_Cons_Inr:
  assumes "collect (r # rs) = Inr ys"
  shows "\<exists>x xs. r = Inr x \<and> collect rs = Inr xs \<and> ys = x # xs"
proof (cases r)
  case (Inl e)
  then show ?thesis using assms by simp
next
  case (Inr x)
  then show ?thesis using assms by (cases "collect rs") auto
qed

lemma usable_Inr:
  assumes "usable v = Inr b"
  shows "(v = JNull \<or> (\<exists>x. v = JNum x) \<or> (\<exists>c. v = JBool c))
       \<and> b = (case v of JNum x \<Rightarrow> - 900 < x | JBool c \<Rightarrow> True | _ \<Rightarrow> False)"
  using assms by (cases v) auto

lemma collect_usable_Inr:
  "collect (map usable cells) = Inr bs \<Longrightarrow>
     bs = map (\<lambda>v. case v of JNum x \<Rightarrow> - 900 < x | JBool c \<Rightarrow> True | _ \<Rightarrow> False) cells
   \<and> (\<forall>v \<in> set cells. v = JNull \<or> (\<exists>x. v = JNum x) \<or> (\<exists>c. v = JBool c))"
proof (induction cells arbitrary: bs)
  case Nil
  then show ?case by simp
next
  case (Cons v cells)
  from Cons.prems have "collect (usable v # map usable cells) = Inr bs" by simp
  from collect_Cons_Inr[OF this] obtain b bs' where b: "usable v = Inr b"
    and bs': "collect (map usable cells) = Inr bs'" and bs: "bs = b # bs'"
    by blast
  show ?case using usable_Inr[OF b] Cons.IH[OF bs'] bs by simp
qed

lemma mask_row_Inr:
  assumes "mask_row row = Inr bs"
  shows "\<exists>cells. py_iter row = Inr cells
     \<and> bs = map (\<lambda>v. case v of JNum x \<Rightarrow> - 900 < x | JBool c \<Rightarrow> True | _ \<Rightarrow> False) cells
     \<and> (\<forall>v \<in> set cells. v = JNull \<or> (\<exists>x. v = JNum x) \<or> (\<exists>c. v = JBool c))"
proof -
  from assms obtain cells where c: "py_iter row = Inr cells"
    and u: "collect (map usable cells) = Inr bs"
    by (auto simp: mask_row_def split: sum.splits)
  show ?thesis using c collect_usable_Inr[OF u] by blast
qed

lemma collect_mask_row_Inr:
  "collect (map mask_row rows) = Inr bss \<Longrightarrow>
     \<exists>cellss. map py_iter rows = map Inr cellss
       \<and> bss = map (map (\<lambda>v. case v of JNum x \<Rightarrow> - 900 < x | JBool c \<Rightarrow> True | _ \<Rightarrow> False))
                  cellss
       \<and> (\<forall>cells \<in> set cellss. \<forall>v \<in> set cells.
              v = JNull \<or> (\<exists>x. v = JNum x) \<or> (\<exists>c. v = JBool c))"
proof (induction rows arbitrary: bss)
  case Nil
  then show ?case by simp
next
  case (Cons row rows)
  from Cons.prems have "collect (mask_row row # map mask_row rows) = Inr bss" by simp
  from collect_Cons_Inr[OF this] obtain bs bss' where b: "mask_row row = Inr bs"
    and bs': "collect (map mask_row rows) = Inr bss'" and bss: "bss = bs # bss'"
    by blast
  from mask_row_Inr[OF b] obtain cells where cells: "py_iter row = Inr cells"
    "bs = map (\<lambda>v. case v of JNum x \<Rightarrow> - 900 < x | JBool c \<Rightarrow> True | _ \<Rightarrow> False) cells"
    "\<forall>v \<in> set cells. v = JNull \<or> (\<exists>x. v = JNum x) \<or> (\<exists>c. v = JBool c)"
    by blast
  from Cons.IH[OF bs'] obtain cellss where cellss: "map py_iter rows = map Inr cellss"
    "bss' = map (map (\<lambda>v. case v of JNum x \<Rightarrow> - 900 < x | JBool c \<Rightarrow> True | _ \<Rightarrow> False))
                  cellss"
    "\<forall>cells \<in> set cellss. \<forall>v \<in> set cells.
              v = JNull \<or> (\<exists>x. v = JNum x) \<or> (\<exists>c. v = JBool c)"
    by blast
  show ?case
    using cells cellss bss by (intro exI[of _ "cells # cellss"]) simp
qed

lemma load_land_mask_accepts:
  assumes "load_land_mask (Decoded j) = Some m"
  shows "\<exists>d rows cellss. first_frame_data j = Inr d \<and> py_iter d = Inr rows
      \<and> map py_iter rows = map Inr cellss
      \<and> (\<forall>cells \<in> set cellss. length cells = length (hd cellss)
            \<and> (\<forall>v \<in> set cells. v = JNull \<or> (\<exists>x. v = JNum x) \<or> (\<exists>c. v = JBool c)))
      \<and> m = map (map (\<lambda>v. case v of JNum x \<Rightarrow> - 900 < x | JBool c \<Rightarrow> True | _ \<Rightarrow> False))
                cellss"
proof -
  let ?rule = "\<lambda>v. case v of JNum x \<Rightarrow> - 900 < x | JBool c \<Rightarrow> True | _ \<Rightarrow> False"
  from assms have "build_mask j = Inr m"
    by (simp add: load_land_mask_def split: sum.splits)
  then obtain d rows bss where d: "first_frame_data j = Inr d"
    and rows: "py_iter d = Inr rows"
    and c: "collect (map mask_row rows) = Inr bss"
    and a: "np_array bss = Inr m"
    by (auto simp: build_mask_def split: sum.splits)
  from a have m: "m = bss" and rect: "\<forall>r \<in> set bss. length r = length (hd bss)"
    by (auto simp: np_array_def split: if_splits)
  from collect_mask_row_Inr[OF c] obtain cellss where cellss:
    "map py_iter rows = map Inr cellss" "bss = map (map ?rule) cellss"
    "\<forall>cells \<in> set cellss. \<forall>v \<in> set cells.
        v = JNull \<or> (\<exists>x. v = JNum x) \<or> (\<exists>c. v = JBool c)"
    by blast
  have "\<forall>cells \<in> set cellss. length cells = length (hd cellss)"
    using rect unfolding cellss(2) by (cases cellss) simp_all
  then show ?thesis using d rows cellss m by blast
qed

text \<open>
  What \<open>load_land_mask\<close> does on each kind of input. It returns \<open>None\<close>, and raises
  nothing, when the reference file is absent, when it cannot be decoded, and when
  building the mask raises: no \<open>frames[0]['data']\<close>, data or a row that is a number, a
  boolean or null, a cell that is a string, a list or an object, or rows of unequal
  length. When the first frame is a grid of rows of equal length whose cells are numbers
  or null, the result is the array of the same shape in which a cell is \<open>True\<close> exactly
  when the reference value is a number above \<open>-900\<close>. Only the first frame is read.
  Conversely, an array is returned only when the first frame could be iterated as rows of
  equal length whose cells are numbers, booleans or null.
\<close>

lemma load_land_mask_contract:
  "load_land_mask Missing = None
   \<and> load_land_mask Undecodable = None
   \<and> (\<forall>e. first_frame_data j = Inl e \<longrightarrow> load_land_mask (Decoded j) = None)
   \<and> (\<forall>d. first_frame_data j = Inr d \<and> (d = JNull \<or> (\<exists>b. d = JBool b) \<or> (\<exists>x. d = JNum x))
          \<longrightarrow> load_land_mask (Decoded j) = None)
   \<and> (\<forall>rows. first_frame_data j = Inr (JArr rows)
             \<and> (\<exists>row \<in> set rows. row = JNull \<or> (\<exists>b. row = JBool b) \<or> (\<exists>x. row = JNum x))
          \<longrightarrow> load_land_mask (Decoded j) = None)
   \<and> (\<forall>cellss. first_frame_data j = Inr (JArr (map JArr cellss))
             \<and> (\<exists>cells \<in> set cellss. \<exists>v \<in> set cells.
                    (\<exists>s. v = JStr s) \<or> (\<exists>xs. v = JArr xs) \<or> (\<exists>kvs. v = JObj kvs))
          \<longrightarrow> load_land_mask (Decoded j) = None)
   \<and> (\<forall>cellss. first_frame_data j = Inr (JArr (map JArr cellss))
             \<and> (\<forall>cells \<in> set cellss. \<forall>v \<in> set cells. v = JNull \<or> (\<exists>x. v = JNum x))
          \<longrightarrow> load_land_mask (Decoded j)
                = (if \<forall>cells \<in> set cellss. length cells = length (hd cellss)
                   then Some (map (map (\<lambda>v. case v of JNum x \<Rightarrow> - 900 < x | _ \<Rightarrow> False))
                                cellss)
                   else None))
   \<and> (\<forall>kvs frame later. map_of kvs ''frames'' = Some (JArr (frame # later))
          \<longrightarrow> first_frame_data (JObj kvs) = getitem_str frame ''data'')
   \<and> (\<forall>m. load_land_mask (Decoded j) = Some m \<longrightarrow>
          (\<exists>d rows cellss. first_frame_data j = Inr d \<and> py_iter d = Inr rows
             \<and> map py_iter rows = map Inr cellss
             \<and> (\<forall>cells \<in> set cellss. length cells = length (hd cellss)
                   \<and> (\<forall>v \<in> set cells.
                          v = JNull \<or> (\<exists>x. v = JNum x) \<or> (\<exists>c. v = JBool c)))
             \<and> m = map (map (\<lambda>v. case v of JNum x \<Rightarrow> - 900 < x | JBool c \<Rightarrow> True
                                    | _ \<Rightarrow> False)) cellss))"
proof (intro conjI allI impI)
  show "load_land_mask Missing = None" by (simp add: load_land_mask_def)
  show "load_land_mask Undecodable = None" by (simp add: load_land_mask_def)
next
  fix e assume "first_frame_data j = Inl e"
  then show "load_land_mask (Decoded j) = None"
    by (simp add: load_land_mask_def build_mask_def)
next
  fix d
  assume "first_frame_data j = Inr d \<and> (d = JNull \<or> (\<exists>b. d = JBool b) \<or> (\<exists>x. d = JNum x))"
  then show "load_land_mask (Decoded j) = None"
    by (auto simp: load_land_mask_def build_mask_def)
next
  fix rows
  assume h: "first_frame_data j = Inr (JArr rows)
             \<and> (\<exists>row \<in> set rows. row = JNull \<or> (\<exists>b. row = JBool b) \<or> (\<exists>x. row = JNum x))"
  then obtain row where row: "row \<in> set rows"
    and bad: "row = JNull \<or> (\<exists>b. row = JBool b) \<or> (\<exists>x. row = JNum x)"
    by blast
  have "mask_row row = Inl TypeError" using bad by (auto simp: mask_row_def)
  then have "\<exists>row \<in> set rows. \<exists>e. mask_row row = Inl e" using row by blast
  from collect_fails[OF this] obtain e where "collect (map mask_row rows) = Inl e"
    by blast
  then have "build_mask j = Inl e"
    using h by (simp add: build_mask_def)
  then show "load_land_mask (Decoded j) = None"
    by (rule load_land_mask_raises)
next
  fix cellss
  assume h: "first_frame_data j = Inr (JArr (map JArr cellss))
             \<and> (\<exists>cells \<in> set cellss. \<exists>v \<in> set cells.
                    (\<exists>s. v = JStr s) \<or> (\<exists>xs. v = JArr xs) \<or> (\<exists>kvs. v = JObj kvs))"
  then obtain cells where cells: "cells \<in> set cellss"
    and bad: "\<exists>v \<in> set cells. (\<exists>s. v = JStr s) \<or> (\<exists>xs. v = JArr xs) \<or> (\<exists>kvs. v = JObj kvs)"
    by blast
  from mask_row_bad_cell[OF bad] obtain e where e: "mask_row (JArr cells) = Inl e"
    by blast
  have "JArr cells \<in> set (map JArr cellss)" using cells by simp
  then have "\<exists>row \<in> set (map JArr cellss). \<exists>e. mask_row row = Inl e"
    using e by (intro bexI[of _ "JArr cells"] exI[of _ e])
  from collect_fails[OF this] obtain e' where
    "collect (map mask_row (map JArr cellss)) = Inl e'"
    by blast
  then have "build_mask j = Inl e'"
    using h by (simp add: build_mask_def del: map_map)
  then show "load_land_mask (Decoded j) = None"
    by (rule load_land_mask_raises)
next
  fix cellss
  assume h: "first_frame_data j = Inr (JArr (map JArr cellss))
             \<and> (\<forall>cells \<in> set cellss. \<forall>v \<in> set cells. v = JNull \<or> (\<exists>x. v = JNum x))"
  let ?rule = "\<lambda>v. case v of JNum x \<Rightarrow> - 900 < x | _ \<Rightarrow> False"
  have c: "collect (map mask_row (map JArr cellss)) = Inr (map (map ?rule) cellss)"
    using h by (intro collect_mask_rows) simp
  have b: "build_mask j = np_array (map (map ?rule) cellss)"
    using h c by (simp add: build_mask_def del: map_map)
  have "(\<forall>r \<in> set (map (map ?rule) cellss). length r = length (hd (map (map ?rule) cellss)))
      \<longleftrightarrow> (\<forall>cells \<in> set cellss. length cells = length (hd cellss))"
    by (cases cellss) simp_all
  then show "load_land_mask (Decoded j)
                = (if \<forall>cells \<in> set cellss. length cells = length (hd cellss)
                   then Some (map (map ?rule) cellss)
                   else None)"
    by (simp add: load_land_mask_def b np_array_def)
next
  fix kvs frame later
  assume "map_of kvs ''frames'' = Some (JArr (frame # later))"
  then show "first_frame_data (JObj kvs) = getitem_str frame ''data''"
    by (simp add: first_frame_data_def)
next
  fix m assume "load_land_mask (Decoded j) = Some m"
  then show "\<exists>d rows cellss. first_frame_data j = Inr d \<and> py_iter d = Inr rows
             \<and> map py_iter rows = map Inr cellss
             \<and> (\<forall>cells \<in> set cellss. length cells = length (hd cellss)
                   \<and> (\<forall>v \<in> set cells.
                          v = JNull \<or> (\<exists>x. v = JNum x) \<or> (\<exists>c. v = JBool c)))
             \<and> m = map (map (\<lambda>v. case v of JNum x \<Rightarrow> - 900 < x | JBool c \<Rightarrow> True
                                    | _ \<Rightarrow> False)) cellss"
    by (rule load_land_mask_accepts)
qed

lemma example_first_frame:
  "first_frame_data example_dataset
     = Inr (JArr (map JArr [[JNum 25, JNull], [JNum (- 999), JNum 18]]))"
  by (simp add: first_frame_data_def example_dataset_def)

lemma example_load:
  "load_land_mask (Decoded example_dataset) = Some [[True, False], [False, True]]"
  by (simp add: load_land_mask_def build_mask_def example_first_frame mask_row_def np_array_def)

lemma empty_frame_load: "load_land_mask (Decoded empty_frame_dataset) = Some []"
  by (simp add: load_land_mask_def build_mask_def first_frame_data_def empty_frame_dataset_def
        np_array_def)

lemma empty_frame_mask_step:
  "apply_land_mask (Decoded empty_frame_dataset) None a = (Inl TypeError, Some [])"
  by (simp add: apply_land_mask_def get_land_mask_def Let_def empty_frame_load
        assign_nan_where_not_def)

text \<open>
  Claim C7. The claim says that \<open>load_land_mask\<close> returns \<open>None\<close> whenever the
  reference dataset is absent or malformed, and a boolean mask otherwise. It fails on a
  reference dataset whose first frame has no data: nothing raises, so the function
  returns the array built from the empty list, which is neither \<open>None\<close> nor a boolean
  mask (numpy gives it dtype float64). The run is then not degraded to unmasked mode:
  the mask step of every frame raises TypeError on \<open>~land_mask\<close>, and so does
  \<open>interpolate_humidity\<close>.
\<close>

theorem load_land_mask_empty_frame:
  "load_land_mask (Decoded empty_frame_dataset) = Some []
   \<and> load_land_mask (Decoded empty_frame_dataset) \<noteq> None
   \<and> apply_land_mask (Decoded empty_frame_dataset) None a = (Inl TypeError, Some [])
   \<and> interpolate_humidity no_strings G_linear_only (Decoded empty_frame_dataset) None
         stations_four geo_small
       = (Inl TypeError, Some [])"
proof -
  have n: "\<not> length (filter valid_station stations_four) < 4"
    by (simp add: four_valid)
  have m: "apply_land_mask (Decoded empty_frame_dataset) None
             (clip [[None, Some 60, Some 120], [None, Some 59, Some 119]] 0 100)
        = (Inl TypeError, Some [])"
    by (rule empty_frame_mask_step)
  have "interpolate_humidity no_strings G_linear_only (Decoded empty_frame_dataset) None
         stations_four geo_small
       = (Inl TypeError, Some [])"
    using n four_points four_values small_samples small_interp m
    by (simp add: interpolate_humidity_def Let_def)
  then show ?thesis using empty_frame_load empty_frame_mask_step
    by (intro conjI) simp_all
qed

section \<open>Caching of the land mask\<close>

lemma get_land_mask_cached: "get_land_mask tf (Some m) = (Some m, Some m)"
  by (simp add: get_land_mask_def Let_def)

lemma get_land_mask_empty: "get_land_mask tf None = (load_land_mask tf, load_land_mask tf)"
  by (simp add: get_land_mask_def Let_def)

lemma get_land_mask_seq_cached:
  "get_land_mask_seq tfs (Some m) = replicate (length tfs) (Some m)"
  by (induction tfs) (simp_all add: get_land_mask_cached)

text \<open>
  Claim C10. Once a call of \<open>get_land_mask\<close> has returned a mask, the global holds that
  mask, and every later call returns the same mask whatever the reference file has
  become: the file is not read again. When a call returns \<open>None\<close>, the global was and
  stays \<open>None\<close>, so the absence is not cached: the next call loads the file again and
  returns what that load gives.
\<close>

theorem get_land_mask_caching:
  "(\<forall>m L'. get_land_mask tf L = (Some m, L') \<longrightarrow>
        L' = Some m
      \<and> (\<forall>tf'. get_land_mask tf' L' = (Some m, Some m))
      \<and> (\<forall>tfs. get_land_mask_seq tfs L' = replicate (length tfs) (Some m)))
   \<and> (\<forall>L'. get_land_mask tf L = (None, L') \<longrightarrow>
        L = None \<and> L' = None \<and> load_land_mask tf = None
      \<and> (\<forall>tf'. get_land_mask tf' L' = (load_land_mask tf', load_land_mask tf'))
      \<and> (\<forall>tf' tfs. get_land_mask_seq (tf' # tfs) L'
             = load_land_mask tf' # get_land_mask_seq tfs (load_land_mask tf')))"
proof (intro conjI allI impI)
  fix m L' assume h: "get_land_mask tf L = (Some m, L')"
  then show l: "L' = Some m" by (auto simp: get_land_mask_def Let_def)
  show "get_land_mask tf' L' = (Some m, Some m)" for tf'
    using l by (simp add: get_land_mask_cached)
  show "get_land_mask_seq tfs L' = replicate (length tfs) (Some m)" for tfs
    using l by (simp add: get_land_mask_seq_cached)
next
  fix L' assume h: "get_land_mask tf L = (None, L')"
  then show l: "L = None" by (auto simp: get_land_mask_def Let_def split: if_splits)
  from h show l': "L' = None" by (auto simp: get_land_mask_def Let_def)
  from h l show "load_land_mask tf = None" by (simp add: get_land_mask_empty)
  show "get_land_mask tf' L' = (load_land_mask tf', load_land_mask tf')" for tf'
    using l' by (simp add: get_land_mask_empty)
  show "get_land_mask_seq (tf' # tfs) L'
             = load_land_mask tf' # get_land_mask_seq tfs (load_land_mask tf')" for tf' tfs
    using l' by (simp add: get_land_mask_empty)
qed


theorem get_land_mask_caching_witness:
  "get_land_mask (Decoded example_dataset) None
     = (Some [[True, False], [False, True]], Some [[True, False], [False, True]])
   \<and> get_land_mask Missing (Some [[True, False], [False, True]])
     = (Some [[True, False], [False, True]], Some [[True, False], [False, True]])
   \<and> get_land_mask_seq [Missing, Undecodable] (Some [[True, False], [False, True]])
     = [Some [[True, False], [False, True]], Some [[True, False], [False, True]]]
   \<and> get_land_mask Missing None = (None, None)
   \<and> get_land_mask_seq [Decoded example_dataset, Missing] None
     = [Some [[True, False], [False, True]], Some [[True, False], [False, True]]]"
proof -
  have hit: "get_land_mask (Decoded example_dataset) None
      = (Some [[True, False], [False, True]], Some [[True, False], [False, True]])"
    by (simp add: get_land_mask_empty example_load)
  have miss: "get_land_mask Missing None = (None, None)"
    by (simp add: get_land_mask_empty load_land_mask_def)
  note cached = get_land_mask_caching
      [where tf = "Decoded example_dataset" and L = None, THEN conjunct1, rule_format, OF hit]
  note retry = get_land_mask_caching
      [where tf = Missing and L = None, THEN conjunct2, rule_format, OF miss]
  have 2: "get_land_mask Missing (Some [[True, False], [False, True]])
     = (Some [[True, False], [False, True]], Some [[True, False], [False, True]])"
    using cached[THEN conjunct2, THEN conjunct1, rule_format, of Missing] .
  have 3: "get_land_mask_seq [Missing, Undecodable] (Some [[True, False], [False, True]])
     = [Some [[True, False], [False, True]], Some [[True, False], [False, True]]]"
    using cached[THEN conjunct2, THEN conjunct2, rule_format, of "[Missing, Undecodable]"]
    by (simp add: numeral_2_eq_2)
  have "get_land_mask_seq [Decoded example_dataset, Missing] None
      = load_land_mask (Decoded example_dataset)
          # get_land_mask_seq [Missing] (load_land_mask (Decoded example_dataset))"
    using retry[THEN conjunct2, THEN conjunct2, THEN conjunct2, THEN conjunct2, rule_format,
                of "Decoded example_dataset" "[Missing]"] .
  then have 5: "get_land_mask_seq [Decoded example_dataset, Missing] None
     = [Some [[True, False], [False, True]], Some [[True, False], [False, True]]]"
    by (simp add: example_load get_land_mask_cached)
  show ?thesis using hit 2 3 miss 5 by (intro conjI)
qed

end
